theory Spec2Isabelle
  imports Complex_Main "HOL-Library.Log_Nat"
begin

section \<open>Numbers\<close>

text \<open>
  A JavaScript number is an IEEE 754 binary64 value. Two uses of numbers are kept apart.

  \<^item> Coordinates, sizes and curve coefficients are rationals with exact arithmetic: the
    rounding of each product and sum is not modelled (and \<^verbatim>\<open>Math.pow\<close> is not
    specified to the last bit by the language).
  \<^item> The loop variable of \<^verbatim>\<open>for (let t = 0; t <= 1; t += 0.01)\<close> is modelled with
    the rounding of binary64 addition, because that rounding decides how many times the
    loop body runs. \<open>fl\<close> rounds a rational to the nearest number with a 53 bit
    significand, ties to the even significand; exponent range, infinities, NaN and
    signed zero play no part for values between 0 and 2.
\<close>

definition round_half_even :: "rat \<Rightarrow> int" where
  "round_half_even q =
     (let f = \<lfloor>q\<rfloor>; d = q - of_int f
      in if d < 1 / 2 then f
         else if 1 / 2 < d then f + 1
         else if even f then f else f + 1)"

definition binade :: "rat \<Rightarrow> int" where
  \<comment> \<open>for \<open>0 < a\<close>: the exponent \<open>e\<close> with \<open>2^e \<le> a < 2^(e+1)\<close>\<close>
  "binade a = (if 1 \<le> a then bitlen \<lfloor>a\<rfloor> - 1 else - bitlen (\<lceil>1 / a\<rceil> - 1))"

definition pow2 :: "int \<Rightarrow> rat" where
  "pow2 e = (if 0 \<le> e then 2 ^ nat e else 1 / 2 ^ nat (- e))"

definition fl :: "rat \<Rightarrow> rat" where
  "fl q =
     (if q = 0 then 0
      else let e = binade \<bar>q\<bar>;
               m = round_half_even (\<bar>q\<bar> * pow2 (52 - e))
           in sgn q * of_int m * pow2 (e - 52))"

definition fadd :: "rat \<Rightarrow> rat \<Rightarrow> rat" where
  "fadd a b = fl (a + b)"

definition step :: rat where
  \<comment> \<open>the literal \<^verbatim>\<open>0.01\<close>\<close>
  "step = fl (1 / 100)"

text \<open>
  The values of \<open>t\<close> for which the body of
  \<^verbatim>\<open>for (let t = 0; t <= 1; t += 0.01) { ... }\<close> runs, starting from a given \<open>t\<close>. The body
  never assigns \<open>t\<close>. \<open>None\<close> stands for a loop that does not end.
\<close>

partial_function (option) t_values :: "rat \<Rightarrow> rat list option" where
  "t_values t =
     (if t \<le> 1 then Option.bind (t_values (fadd t step)) (\<lambda>ts. Some (t # ts))
      else Some [])"


section \<open>The drawing surface\<close>

text \<open>
  The surface (\<^verbatim>\<open>CanvasRenderingContext2D\<close>) belongs to the host. The model keeps what the
  emitters can observe or change: the drawing state that \<^verbatim>\<open>save\<close> and \<^verbatim>\<open>restore\<close>
  push and pop (paints, line width, dash pattern, transform), the stack of saved states,
  and the sequence of calls received so far, oldest first. The current path and the
  pixels are not part of the saved state; they are visible in the call sequence only.
  Every primitive accepts every argument.

  Angles stay symbolic: \<open>Atan2 y x\<close> is \<^verbatim>\<open>Math.atan2(y, x)\<close>, which is what \<^verbatim>\<open>vec2.rad\<close>
  of the vector \<open>(x, y)\<close> returns, and \<open>TwoPi\<close> is \<^verbatim>\<open>Math.PI * 2\<close>. The outer radius
  of a radial gradient is half the length of a vector, and the vector is what is stored.
\<close>

record vec2 =
  vx :: rat
  vy :: rat

datatype angle = Zero | TwoPi | Atan2 rat rat

datatype canvas_gradient =
    LinearGradient rat rat rat rat "(rat \<times> string) list"
  | RadialGradient rat rat rat rat rat vec2 "(rat \<times> string) list"

datatype paint = CssColor string | GradientPaint canvas_gradient

datatype call =
    Save | Restore | BeginPath | ClosePath | Fill | Stroke
  | MoveTo rat rat | LineTo rat rat
  | Arc rat rat rat angle angle
  | Rect rat rat rat rat
  | RoundRect rat rat rat rat rat
  | Translate rat rat | Rotate angle
  | SetStrokeStyle paint | SetFillStyle paint
  | SetLineWidth rat | SetLineDash "rat list"

record draw_state =
  strokeStyle :: paint
  fillStyle :: paint
  currentLineWidth :: rat
  currentLineDash :: "rat list"
  transform :: "call list"

record context2d =
  state :: draw_state
  saved :: "draw_state list"
  calls :: "call list"

definition received :: "call \<Rightarrow> context2d \<Rightarrow> context2d" where
  "received c ctx = ctx\<lparr>calls := calls ctx @ [c]\<rparr>"

definition save :: "context2d \<Rightarrow> context2d" where
  "save ctx = received Save (ctx\<lparr>saved := state ctx # saved ctx\<rparr>)"

definition restore :: "context2d \<Rightarrow> context2d" where
  \<comment> \<open>with nothing saved, \<^verbatim>\<open>restore\<close> does nothing\<close>
  "restore ctx =
     received Restore
       (case saved ctx of [] \<Rightarrow> ctx | s # ss \<Rightarrow> ctx\<lparr>state := s, saved := ss\<rparr>)"

definition beginPath :: "context2d \<Rightarrow> context2d" where
  "beginPath = received BeginPath"

definition closePath :: "context2d \<Rightarrow> context2d" where
  "closePath = received ClosePath"

definition moveTo :: "rat \<Rightarrow> rat \<Rightarrow> context2d \<Rightarrow> context2d" where
  "moveTo a b = received (MoveTo a b)"

definition lineTo :: "rat \<Rightarrow> rat \<Rightarrow> context2d \<Rightarrow> context2d" where
  "lineTo a b = received (LineTo a b)"

definition arc :: "rat \<Rightarrow> rat \<Rightarrow> rat \<Rightarrow> angle \<Rightarrow> angle \<Rightarrow> context2d \<Rightarrow> context2d" where
  "arc a b r a0 a1 = received (Arc a b r a0 a1)"

definition rect :: "rat \<Rightarrow> rat \<Rightarrow> rat \<Rightarrow> rat \<Rightarrow> context2d \<Rightarrow> context2d" where
  "rect a b w h = received (Rect a b w h)"

definition roundRect :: "rat \<Rightarrow> rat \<Rightarrow> rat \<Rightarrow> rat \<Rightarrow> rat \<Rightarrow> context2d \<Rightarrow> context2d" where
  "roundRect a b w h r = received (RoundRect a b w h r)"

definition fillPath :: "context2d \<Rightarrow> context2d" where
  \<comment> \<open>\<^verbatim>\<open>context.fill()\<close>\<close>
  "fillPath = received Fill"

definition strokePath :: "context2d \<Rightarrow> context2d" where
  \<comment> \<open>\<^verbatim>\<open>context.stroke()\<close>\<close>
  "strokePath = received Stroke"

definition translate :: "rat \<Rightarrow> rat \<Rightarrow> context2d \<Rightarrow> context2d" where
  "translate a b ctx =
     received (Translate a b)
       (ctx\<lparr>state := (state ctx)\<lparr>transform := transform (state ctx) @ [Translate a b]\<rparr>\<rparr>)"

definition rotate :: "angle \<Rightarrow> context2d \<Rightarrow> context2d" where
  "rotate a ctx =
     received (Rotate a)
       (ctx\<lparr>state := (state ctx)\<lparr>transform := transform (state ctx) @ [Rotate a]\<rparr>\<rparr>)"

definition set_strokeStyle :: "paint \<Rightarrow> context2d \<Rightarrow> context2d" where
  "set_strokeStyle p ctx =
     received (SetStrokeStyle p) (ctx\<lparr>state := (state ctx)\<lparr>strokeStyle := p\<rparr>\<rparr>)"

definition set_fillStyle :: "paint \<Rightarrow> context2d \<Rightarrow> context2d" where
  "set_fillStyle p ctx =
     received (SetFillStyle p) (ctx\<lparr>state := (state ctx)\<lparr>fillStyle := p\<rparr>\<rparr>)"

definition set_lineWidth :: "rat \<Rightarrow> context2d \<Rightarrow> context2d" where
  "set_lineWidth w ctx =
     received (SetLineWidth w) (ctx\<lparr>state := (state ctx)\<lparr>currentLineWidth := w\<rparr>\<rparr>)"

definition setLineDash :: "rat list \<Rightarrow> context2d \<Rightarrow> context2d" where
  "setLineDash d ctx =
     received (SetLineDash d) (ctx\<lparr>state := (state ctx)\<lparr>currentLineDash := d\<rparr>\<rparr>)"

section \<open>Helpers of the vector and utility libraries\<close>

text \<open>
  \<^verbatim>\<open>clamp\<close>, \<^verbatim>\<open>dot\<close>, \<^verbatim>\<open>mat\<close>, \<^verbatim>\<open>mat.mulv\<close>, \<^verbatim>\<open>vec2.sub\<close> and \<^verbatim>\<open>vec2.rad\<close> are imported from two
  packages; they are written out here with their usual meaning. A matrix has \<open>m\<close> rows
  and \<open>n\<close> columns, its entries row by row; \<^verbatim>\<open>mat.mulv\<close> answers \<^verbatim>\<open>false\<close> (here \<open>None\<close>)
  when the vector does not have \<open>n\<close> components.
\<close>

definition clamp :: "int \<Rightarrow> int \<Rightarrow> int \<Rightarrow> int" where
  "clamp a lo hi = (if a < lo then lo else if hi < a then hi else a)"

definition dot :: "rat list \<Rightarrow> rat list \<Rightarrow> rat" where
  "dot a b = sum_list (map (\<lambda>(p, q). p * q) (zip a b))"

record mat =
  mat_m :: nat
  mat_n :: nat
  entries :: "rat list"

definition mat_row :: "mat \<Rightarrow> nat \<Rightarrow> rat list" where
  "mat_row a i = take (mat_n a) (drop (i * mat_n a) (entries a))"

definition mulv :: "mat \<Rightarrow> rat list \<Rightarrow> rat list option" where
  "mulv a b =
     (if mat_n a \<noteq> length b then None
      else Some (map (\<lambda>i. dot (mat_row a i) b) [0..<mat_m a]))"

definition vec2_sub :: "vec2 \<Rightarrow> vec2 \<Rightarrow> vec2" where
  "vec2_sub a b = \<lparr>vx = vx a - vx b, vy = vy a - vy b\<rparr>"

definition vec2_rad :: "vec2 \<Rightarrow> angle" where
  "vec2_rad a = Atan2 (vy a) (vx a)"


section \<open>Values, colours and gradients\<close>

text \<open>
  \<^verbatim>\<open>prepareColor\<close> inspects its argument at run time, so it is modelled on untyped
  values: \<open>JObj\<close> is a plain object given by its own properties (no inherited property is
  named \<open>r\<close>, \<open>g\<close>, \<open>b\<close> or \<open>a\<close>). The operator \<^verbatim>\<open>in\<close> raises a \<^verbatim>\<open>TypeError\<close> when its
  right operand is not an object; \<^verbatim>\<open>typeof null\<close> is \<^verbatim>\<open>'object'\<close>. The conversion of a
  number to a string belongs to the host and is a parameter, \<open>numstr\<close>.
\<close>

datatype error = TypeError

datatype jsval =
    JUndefined | JNull | JBool bool | JNum rat | JStr string
  | JObj "(string \<times> jsval) list"

fun typeof :: "jsval \<Rightarrow> string" where
  "typeof JUndefined = ''undefined''"
| "typeof JNull = ''object''"
| "typeof (JBool b) = ''boolean''"
| "typeof (JNum n) = ''number''"
| "typeof (JStr s) = ''string''"
| "typeof (JObj kvs) = ''object''"

fun has_property :: "string \<Rightarrow> jsval \<Rightarrow> error + bool" where
  \<comment> \<open>\<^verbatim>\<open>key in value\<close>\<close>
  "has_property k (JObj kvs) = Inr (map_of kvs k \<noteq> None)"
| "has_property k v = Inl TypeError"

fun get_property :: "jsval \<Rightarrow> string \<Rightarrow> jsval" where
  \<comment> \<open>\<^verbatim>\<open>value.key\<close> on an object\<close>
  "get_property (JObj kvs) k = (case map_of kvs k of None \<Rightarrow> JUndefined | Some v \<Rightarrow> v)"
| "get_property v k = JUndefined"

definition and_then :: "error + 'a \<Rightarrow> ('a \<Rightarrow> error + 'b) \<Rightarrow> error + 'b" where
  "and_then r f = (case r of Inl e \<Rightarrow> Inl e | Inr v \<Rightarrow> f v)"

definition isColorObject :: "jsval \<Rightarrow> error + bool" where
  "isColorObject color =
     (if typeof color \<noteq> ''object'' then Inr False
      else and_then (has_property ''r'' color) (\<lambda>r.
        if \<not> r then Inr False
        else and_then (has_property ''g'' color) (\<lambda>g.
          if \<not> g then Inr False
          else and_then (has_property ''b'' color) (\<lambda>b.
            if \<not> b then Inr False
            else if typeof (get_property color ''a'') = ''number'' then Inr True
            else and_then (has_property ''a'' color) (\<lambda>a. Inr (\<not> a))))))"

fun js_string :: "(rat \<Rightarrow> string) \<Rightarrow> jsval \<Rightarrow> string" where
  \<comment> \<open>a value inside a template literal\<close>
  "js_string numstr JUndefined = ''undefined''"
| "js_string numstr JNull = ''null''"
| "js_string numstr (JBool b) = (if b then ''true'' else ''false'')"
| "js_string numstr (JNum n) = numstr n"
| "js_string numstr (JStr s) = s"
| "js_string numstr (JObj kvs) = ''[object Object]''"

definition nullish_or :: "jsval \<Rightarrow> jsval \<Rightarrow> jsval" where
  \<comment> \<open>\<^verbatim>\<open>v ?? d\<close>\<close>
  "nullish_or v d = (if v = JUndefined \<or> v = JNull then d else v)"

definition colourToString :: "(rat \<Rightarrow> string) \<Rightarrow> jsval \<Rightarrow> string" where
  "colourToString numstr color =
     ''rgba('' @ js_string numstr (get_property color ''r'') @ '', ''
       @ js_string numstr (get_property color ''g'') @ '', ''
       @ js_string numstr (get_property color ''b'') @ '', ''
       @ js_string numstr (nullish_or (get_property color ''a'') (JNum 1)) @ '')''"

definition prepareColor :: "(rat \<Rightarrow> string) \<Rightarrow> jsval \<Rightarrow> error + string" where
  "prepareColor numstr color =
     (case color of
        JStr s \<Rightarrow> Inr s
      | _ \<Rightarrow> and_then (isColorObject color) (\<lambda>is_color.
               if is_color then Inr (colourToString numstr color) else Inr ''black''))"

text \<open>
  The emitters take styles of the declared type, where a colour is a string or an object
  \<open>{r, g, b, a?}\<close> of numbers. \<open>js_of_color\<close> is that value at run time.
\<close>

datatype color_value = ColorString string | ColorObject rat rat rat "rat option"

fun js_of_color :: "color_value \<Rightarrow> jsval" where
  "js_of_color (ColorString s) = JStr s"
| "js_of_color (ColorObject r g b a) =
     JObj ([(''r'', JNum r), (''g'', JNum g), (''b'', JNum b)]
           @ (case a of None \<Rightarrow> [] | Some v \<Rightarrow> [(''a'', JNum v)]))"

datatype gradient_kind = LinearKind | RadialKind

record color_stop =
  stop_color :: color_value
  stop_position :: rat

record gradient_options =
  gradient_kind :: gradient_kind
  gradient_start :: vec2
  gradient_end :: vec2
  colorStops :: "color_stop list"

datatype 'a nullable = Null | Value 'a

fun addColorStops ::
  "(rat \<Rightarrow> string) \<Rightarrow> color_stop list \<Rightarrow> (rat \<times> string) list \<Rightarrow> error + (rat \<times> string) list"
where
  "addColorStops numstr [] acc = Inr acc"
| "addColorStops numstr (stop # stops) acc =
     and_then (prepareColor numstr (js_of_color (stop_color stop))) (\<lambda>c.
       addColorStops numstr stops (acc @ [(stop_position stop, c)]))"

definition prepareGradient ::
  "(rat \<Rightarrow> string) \<Rightarrow> gradient_options nullable option \<Rightarrow> error + canvas_gradient option"
where
  "prepareGradient numstr style =
     (case style of
        Some (Value g) \<Rightarrow>
          and_then (addColorStops numstr (colorStops g) []) (\<lambda>stops.
            Inr (Some
              (if gradient_kind g = LinearKind
               then LinearGradient (vx (gradient_start g)) (vy (gradient_start g))
                      (vx (gradient_end g)) (vy (gradient_end g)) stops
               else RadialGradient (vx (gradient_start g)) (vy (gradient_start g)) 0
                      (vx (gradient_start g)) (vy (gradient_start g))
                      (vec2_sub (gradient_end g) (gradient_start g)) stops)))
      | _ \<Rightarrow> Inr None)"


section \<open>Styles\<close>

text \<open>
  A style object, partial or resolved, is one record: every field is optional, \<open>None\<close> is
  a key that is absent, and the fields whose declared type admits \<^verbatim>\<open>null\<close> hold a
  \<open>nullable\<close>. \<open>bezierOrder\<close> is an integer, as the data model of the specification has it.
  \<open>extension\<close> holds the additional keys of the index signature; the key \<^verbatim>\<open>arrow\<close> is the
  field \<open>arrow_field\<close>, \<open>arrow\<close> being the emitter. A custom arrowhead is
  a function of the caller that receives the surface and the arrow size.
\<close>

datatype line_style = Solid | Dashed | Dotted

datatype cross_style = PlusCross | XCross

datatype path_type = Linear | Bezier | CatmullRom

datatype arrow_type = Caret | Chevron | Custom "context2d \<Rightarrow> rat \<Rightarrow> context2d"

record arrow_options =
  arrow_type :: "arrow_type option"
  arrow_size :: "rat option"

record style_options =
  batch :: "bool option"
  fill :: "bool option"
  fillColor :: "color_value nullable option"
  gradient :: "gradient_options nullable option"
  stroke :: "bool option"
  strokeColor :: "color_value nullable option"
  lineWidth :: "rat nullable option"
  lineStyle :: "line_style option"
  lineDash :: "rat list nullable option"
  crossStyle :: "cross_style option"
  rounded :: "bool option"
  borderRadius :: "rat option"
  arrow_field :: "arrow_options nullable option"
  pathType :: "path_type option"
  bezierOrder :: "int option"
  catmullRomTension :: "rat option"
  extension :: "string \<rightharpoonup> jsval"

definition empty_object :: style_options where
  \<comment> \<open>\<^verbatim>\<open>{}\<close>\<close>
  "empty_object =
     \<lparr>batch = None, fill = None, fillColor = None, gradient = None, stroke = None,
      strokeColor = None, lineWidth = None, lineStyle = None, lineDash = None,
      crossStyle = None, rounded = None, borderRadius = None, arrow_field = None,
      pathType = None, bezierOrder = None, catmullRomTension = None,
      extension = Map.empty\<rparr>"

definition DEFAULT_STYLE_OPTIONS :: style_options where
  "DEFAULT_STYLE_OPTIONS =
     empty_object
       \<lparr>batch := Some False,
        fill := Some False,
        fillColor := Some Null,
        gradient := Some Null,
        stroke := Some True,
        strokeColor := Some Null,
        lineWidth := Some (Value 1),
        lineStyle := Some Solid,
        lineDash := Some Null,
        crossStyle := Some XCross,
        rounded := Some False,
        arrow_field := Some (Value \<lparr>arrow_type = Some Caret, arrow_size = Some 5\<rparr>)\<rparr>"

fun DEFAULT_LINE_DASHES :: "line_style \<Rightarrow> rat list" where
  "DEFAULT_LINE_DASHES Solid = []"
| "DEFAULT_LINE_DASHES Dashed = [5, 5]"
| "DEFAULT_LINE_DASHES Dotted = [1, 3]"

definition own :: "'a option \<Rightarrow> 'a option \<Rightarrow> 'a option" where
  \<comment> \<open>a key after \<^verbatim>\<open>Object.assign\<close>: the source's value when the source has the key\<close>
  "own target source = (case source of None \<Rightarrow> target | Some v \<Rightarrow> Some v)"

definition assign :: "style_options \<Rightarrow> style_options \<Rightarrow> style_options" where
  \<comment> \<open>\<^verbatim>\<open>Object.assign({}, target, source)\<close>\<close>
  "assign target source =
     \<lparr>batch = own (batch target) (batch source),
      fill = own (fill target) (fill source),
      fillColor = own (fillColor target) (fillColor source),
      gradient = own (gradient target) (gradient source),
      stroke = own (stroke target) (stroke source),
      strokeColor = own (strokeColor target) (strokeColor source),
      lineWidth = own (lineWidth target) (lineWidth source),
      lineStyle = own (lineStyle target) (lineStyle source),
      lineDash = own (lineDash target) (lineDash source),
      crossStyle = own (crossStyle target) (crossStyle source),
      rounded = own (rounded target) (rounded source),
      borderRadius = own (borderRadius target) (borderRadius source),
      arrow_field = own (arrow_field target) (arrow_field source),
      pathType = own (pathType target) (pathType source),
      bezierOrder = own (bezierOrder target) (bezierOrder source),
      catmullRomTension = own (catmullRomTension target) (catmullRomTension source),
      extension = extension target ++ extension source\<rparr>"

definition getStyle :: "style_options option \<Rightarrow> style_options" where
  "getStyle style =
     assign DEFAULT_STYLE_OPTIONS
       ((case style of None \<Rightarrow> empty_object | Some s \<Rightarrow> s)
          \<lparr>lineDash :=
             Some (case style of
                     None \<Rightarrow> Value []
                   | Some s \<Rightarrow>
                       (case lineDash s of
                          Some d \<Rightarrow> d
                        | None \<Rightarrow>
                            (case lineStyle s of
                               None \<Rightarrow> Value []
                             | Some l \<Rightarrow> Value (DEFAULT_LINE_DASHES l))))\<rparr>)"

definition truthy :: "bool option \<Rightarrow> bool" where
  \<comment> \<open>a boolean field used as a condition; an absent key is falsy\<close>
  "truthy b = (b = Some True)"


section \<open>Applying a resolved style to the surface\<close>

text \<open>
  Every emitter starts with the same assignments, written out in each of them in the
  source; they are two functions here. A field is compared with \<^verbatim>\<open>null\<close> only, so an
  absent key counts as a value: \<^verbatim>\<open>prepareColor(undefined)\<close> is \<^verbatim>\<open>'black'\<close>, the surface
  ignores \<^verbatim>\<open>lineWidth = undefined\<close>, and \<^verbatim>\<open>setLineDash(undefined)\<close> raises.
\<close>

fun js_of_color_field :: "color_value nullable option \<Rightarrow> jsval" where
  "js_of_color_field None = JUndefined"
| "js_of_color_field (Some Null) = JNull"
| "js_of_color_field (Some (Value c)) = js_of_color c"

definition run_if :: "bool \<Rightarrow> (context2d \<Rightarrow> context2d) \<Rightarrow> context2d \<Rightarrow> context2d" where
  "run_if b f ctx = (if b then f ctx else ctx)"

definition apply_stroke_style ::
  "(rat \<Rightarrow> string) \<Rightarrow> style_options \<Rightarrow> context2d \<Rightarrow> error + context2d"
where
  "apply_stroke_style numstr actualStyle ctx =
     and_then
       (if js_of_color_field (strokeColor actualStyle) \<noteq> JNull
        then and_then (prepareColor numstr (js_of_color_field (strokeColor actualStyle)))
               (\<lambda>c. Inr (set_strokeStyle (CssColor c) ctx))
        else Inr ctx)
       (\<lambda>ctx.
          let ctx = (case lineWidth actualStyle of
                       Some (Value w) \<Rightarrow> set_lineWidth w ctx
                     | _ \<Rightarrow> ctx)
          in case lineDash actualStyle of
               Some (Value d) \<Rightarrow> Inr (setLineDash d ctx)
             | Some Null \<Rightarrow> Inr ctx
             | None \<Rightarrow> Inl TypeError)"

definition apply_fill_style ::
  "(rat \<Rightarrow> string) \<Rightarrow> style_options \<Rightarrow> context2d \<Rightarrow> error + context2d"
where
  "apply_fill_style numstr actualStyle ctx =
     and_then
       (if js_of_color_field (fillColor actualStyle) \<noteq> JNull
        then and_then (prepareColor numstr (js_of_color_field (fillColor actualStyle)))
               (\<lambda>c. Inr (set_fillStyle (CssColor c) ctx))
        else Inr ctx)
       (\<lambda>ctx.
          and_then (prepareGradient numstr (gradient actualStyle)) (\<lambda>g.
            case g of
              None \<Rightarrow> Inr ctx
            | Some h \<Rightarrow> Inr (set_fillStyle (GradientPaint h) ctx)))"

section \<open>Emitters\<close>

definition line ::
  "(rat \<Rightarrow> string) \<Rightarrow> context2d \<Rightarrow> vec2 \<Rightarrow> vec2 \<Rightarrow> style_options option \<Rightarrow> error + context2d"
where
  "line numstr ctx start end_point style =
     (let ctx = save ctx;
          actualStyle = getStyle style
      in and_then (apply_stroke_style numstr actualStyle ctx) (\<lambda>ctx.
           let ctx = run_if (\<not> truthy (batch actualStyle)) beginPath ctx;
               ctx = moveTo (vx start) (vy start) ctx;
               ctx = lineTo (vx end_point) (vy end_point) ctx;
               ctx = run_if (truthy (stroke actualStyle) \<and> \<not> truthy (batch actualStyle))
                       strokePath ctx
           in Inr (restore ctx)))"

definition cross ::
  "(rat \<Rightarrow> string) \<Rightarrow> context2d \<Rightarrow> vec2 \<Rightarrow> rat \<Rightarrow> style_options option \<Rightarrow> error + context2d"
where
  "cross numstr ctx position cross_size style =
     (let ctx = save ctx;
          actualStyle = getStyle style
      in and_then (apply_stroke_style numstr actualStyle ctx) (\<lambda>ctx.
           let ctx = run_if (\<not> truthy (batch actualStyle)) beginPath ctx;
               halfSize = cross_size / 2;
               ctx =
                 (if crossStyle actualStyle = Some PlusCross then
                    lineTo (vx position) (vy position + halfSize)
                      (moveTo (vx position) (vy position - halfSize)
                        (lineTo (vx position + halfSize) (vy position)
                          (moveTo (vx position - halfSize) (vy position) ctx)))
                  else if crossStyle actualStyle = Some XCross then
                    lineTo (vx position + halfSize) (vy position - halfSize)
                      (moveTo (vx position - halfSize) (vy position + halfSize)
                        (lineTo (vx position + halfSize) (vy position + halfSize)
                          (moveTo (vx position - halfSize) (vy position - halfSize) ctx)))
                  else ctx);
               ctx = run_if (truthy (stroke actualStyle) \<and> \<not> truthy (batch actualStyle))
                       strokePath ctx
           in Inr (restore ctx)))"

definition arrowhead ::
  "(rat \<Rightarrow> string) \<Rightarrow> style_options \<Rightarrow> arrow_options \<Rightarrow> vec2 \<Rightarrow> vec2 \<Rightarrow> context2d
     \<Rightarrow> error + context2d"
where
  \<comment> \<open>the body of \<^verbatim>\<open>if (actualStyle.arrow) { ... }\<close>\<close>
  "arrowhead numstr actualStyle a start end_point ctx =
     (let arrowSize = (case arrow_size a of None \<Rightarrow> 10 | Some n \<Rightarrow> n);
          halfSize = arrowSize / 2;
          angle = vec2_rad (vec2_sub end_point start);
          arrowType = (case arrow_type a of None \<Rightarrow> Caret | Some ty \<Rightarrow> ty);
          ctx = save ctx;
          ctx = translate (vx end_point) (vy end_point) ctx;
          ctx = rotate angle ctx
      in and_then
           (case arrowType of
              Custom f \<Rightarrow> Inr (f ctx arrowSize)
            | Caret \<Rightarrow>
                and_then
                  (if js_of_color_field (strokeColor actualStyle) \<noteq> JNull
                   then and_then
                          (prepareColor numstr (js_of_color_field (strokeColor actualStyle)))
                          (\<lambda>c. Inr (set_fillStyle (CssColor c) ctx))
                   else Inr ctx)
                  (\<lambda>ctx.
                     Inr (fillPath
                           (closePath
                             (lineTo 0 halfSize
                               (lineTo arrowSize 0
                                 (moveTo 0 (- halfSize)
                                   (beginPath ctx)))))))
            | Chevron \<Rightarrow>
                Inr (strokePath
                      (lineTo (- halfSize) halfSize
                        (lineTo 0 0
                          (moveTo (- halfSize) (- halfSize)
                            (beginPath ctx))))))
           (\<lambda>ctx. Inr (restore ctx)))"

definition arrow ::
  "(rat \<Rightarrow> string) \<Rightarrow> context2d \<Rightarrow> vec2 \<Rightarrow> vec2 \<Rightarrow> style_options option \<Rightarrow> error + context2d"
where
  "arrow numstr ctx start end_point style =
     (let ctx = save ctx;
          actualStyle = getStyle style
      in and_then (apply_stroke_style numstr actualStyle ctx) (\<lambda>ctx.
           let ctx = beginPath ctx;
               ctx = moveTo (vx start) (vy start) ctx;
               ctx = lineTo (vx end_point) (vy end_point) ctx;
               ctx = strokePath ctx
           in and_then
                (case arrow_field actualStyle of
                   Some (Value a) \<Rightarrow> arrowhead numstr actualStyle a start end_point ctx
                 | _ \<Rightarrow> Inr ctx)
                (\<lambda>ctx. Inr (restore ctx))))"

definition circle ::
  "(rat \<Rightarrow> string) \<Rightarrow> context2d \<Rightarrow> vec2 \<Rightarrow> rat \<Rightarrow> style_options option \<Rightarrow> error + context2d"
where
  "circle numstr ctx center radius style =
     (let ctx = save ctx;
          actualStyle = getStyle style
      in and_then (apply_fill_style numstr actualStyle ctx) (\<lambda>ctx.
         and_then (apply_stroke_style numstr actualStyle ctx) (\<lambda>ctx.
           let ctx = run_if (\<not> truthy (batch actualStyle)) beginPath ctx;
               ctx = arc (vx center) (vy center) radius Zero TwoPi ctx;
               ctx = run_if (truthy (fill actualStyle) \<and> \<not> truthy (batch actualStyle))
                       fillPath ctx;
               ctx = run_if (truthy (stroke actualStyle) \<and> \<not> truthy (batch actualStyle))
                       strokePath ctx
           in Inr (restore ctx))))"

definition rectangle ::
  "(rat \<Rightarrow> string) \<Rightarrow> context2d \<Rightarrow> vec2 \<Rightarrow> vec2 \<Rightarrow> style_options option \<Rightarrow> error + context2d"
where
  "rectangle numstr ctx position rect_size style =
     (let ctx = save ctx;
          actualStyle = getStyle style
      in and_then (apply_fill_style numstr actualStyle ctx) (\<lambda>ctx.
         and_then (apply_stroke_style numstr actualStyle ctx) (\<lambda>ctx.
           let ctx = run_if (\<not> truthy (batch actualStyle)) beginPath ctx;
               ctx =
                 (if truthy (rounded actualStyle) then
                    roundRect (vx position) (vy position) (vx rect_size) (vy rect_size)
                      (case borderRadius actualStyle of None \<Rightarrow> 1 | Some r \<Rightarrow> r) ctx
                  else rect (vx position) (vy position) (vx rect_size) (vy rect_size) ctx);
               ctx = run_if (truthy (fill actualStyle) \<and> \<not> truthy (batch actualStyle))
                       fillPath ctx;
               ctx = run_if (truthy (stroke actualStyle) \<and> \<not> truthy (batch actualStyle))
                       strokePath ctx
           in Inr (restore ctx))))"

definition line_through :: "vec2 list \<Rightarrow> context2d \<Rightarrow> context2d" where
  \<comment> \<open>\<^verbatim>\<open>moveTo(vertices[0]); for (let i = 1; i < vertices.length; i++) lineTo(vertices[i])\<close>\<close>
  "line_through vertices ctx =
     fold (\<lambda>i. lineTo (vx (vertices ! i)) (vy (vertices ! i))) [1..<length vertices]
       (moveTo (vx (vertices ! 0)) (vy (vertices ! 0)) ctx)"

definition polygon ::
  "(rat \<Rightarrow> string) \<Rightarrow> context2d \<Rightarrow> vec2 list \<Rightarrow> style_options option \<Rightarrow> error + context2d"
where
  "polygon numstr ctx vertices style =
     (if length vertices < 3 then Inr ctx
      else
        let ctx = save ctx;
            actualStyle = getStyle style
        in and_then (apply_fill_style numstr actualStyle ctx) (\<lambda>ctx.
           and_then (apply_stroke_style numstr actualStyle ctx) (\<lambda>ctx.
             let ctx = run_if (\<not> truthy (batch actualStyle)) beginPath ctx;
                 ctx = line_through vertices ctx;
                 ctx = closePath ctx;
                 ctx = run_if (truthy (fill actualStyle) \<and> \<not> truthy (batch actualStyle))
                         fillPath ctx;
                 ctx = run_if (truthy (stroke actualStyle) \<and> \<not> truthy (batch actualStyle))
                         strokePath ctx
             in Inr (restore ctx))))"


section \<open>Curves and the path emitter\<close>

definition BEZIER_MATRICES :: "int \<Rightarrow> mat option" where
  "BEZIER_MATRICES order =
     (if order = 1 then Some \<lparr>mat_m = 2, mat_n = 2, entries = [- 1, 1, 1, 0]\<rparr>
      else if order = 2 then
        Some \<lparr>mat_m = 3, mat_n = 3, entries = [1, - 2, 1, - 2, 2, 0, 1, 0, 0]\<rparr>
      else if order = 3 then
        Some \<lparr>mat_m = 4, mat_n = 4,
              entries = [- 1, 3, - 3, 1, 3, - 6, 3, 0, - 3, 3, 0, 0, 1, 0, 0, 0]\<rparr>
      else None)"

definition BEZIER_COEFFICIENTS :: "rat \<Rightarrow> int \<Rightarrow> rat list option" where
  "BEZIER_COEFFICIENTS t order =
     (if order = 1 then Some [t, 1]
      else if order = 2 then Some [t * t, t, 1]
      else if order = 3 then Some [t * t * t, t * t, t, 1]
      else None)"

definition CATMULL_ROM_BASIS_VECTOR :: "rat \<Rightarrow> rat \<Rightarrow> rat list" where
  "CATMULL_ROM_BASIS_VECTOR t tension =
     [- tension * t ^ 3 + 2 * tension * t ^ 2 - tension * t,
      (2 - tension) * t ^ 3 + (tension - 3) * t ^ 2 + 1,
      (tension - 2) * t ^ 3 + (3 - 2 * tension) * t ^ 2 + tension * t,
      tension * t ^ 3 - tension * t ^ 2]"

text \<open>
  What a loop body leaves behind: the loop goes on (\<open>Next\<close>), the function has returned
  (\<open>Return\<close>), or an exception is on its way (\<open>Throw\<close>). A lookup with a key that a table
  does not have gives \<^verbatim>\<open>undefined\<close>, and the matrix product of \<^verbatim>\<open>undefined\<close> raises.
\<close>

datatype 'a flow = Next 'a | Return 'a | Throw error

fun for_each :: "('a \<Rightarrow> 's \<Rightarrow> 's flow) \<Rightarrow> 'a list \<Rightarrow> 's \<Rightarrow> 's flow" where
  "for_each body [] s = Next s"
| "for_each body (a # as) s =
     (case body a s of
        Next s' \<Rightarrow> for_each body as s'
      | Return s' \<Rightarrow> Return s'
      | Throw e \<Rightarrow> Throw e)"

definition bezier_point :: "vec2 list \<Rightarrow> rat list \<Rightarrow> nat \<Rightarrow> vec2" where
  \<comment> \<open>\<^verbatim>\<open>let p = vec2(); for (let j = 0; j < segmentSize; j++) { p.x += ...; p.y += ... }\<close>\<close>
  "bezier_point segmentPoints q segmentSize =
     fold (\<lambda>j p. \<lparr>vx = vx p + vx (segmentPoints ! j) * q ! j,
                   vy = vy p + vy (segmentPoints ! j) * q ! j\<rparr>)
       [0..<segmentSize] \<lparr>vx = 0, vy = 0\<rparr>"

definition bezier_sample :: "int \<Rightarrow> vec2 list \<Rightarrow> rat \<Rightarrow> context2d \<Rightarrow> context2d flow" where
  "bezier_sample order segmentPoints t ctx =
     (case BEZIER_MATRICES order of
        None \<Rightarrow> Throw TypeError
      | Some m \<Rightarrow>
          (case BEZIER_COEFFICIENTS t order of
             None \<Rightarrow> Throw TypeError
           | Some coefficients \<Rightarrow>
               (case mulv m coefficients of
                  None \<Rightarrow> Return (restore ctx)
                | Some q \<Rightarrow>
                    let p = bezier_point segmentPoints q (nat (order + 1))
                    in Next (lineTo (vx p) (vy p) ctx))))"

function bezier_segments ::
  "int \<Rightarrow> rat list \<Rightarrow> vec2 list \<Rightarrow> nat \<Rightarrow> context2d \<Rightarrow> context2d flow"
where
  "bezier_segments b ts vertices i ctx =
     (if i + nat (clamp b 1 3 + 1) \<le> length vertices then
        (case for_each
                (bezier_sample (clamp b 1 3) (take (nat (clamp b 1 3 + 1)) (drop i vertices)))
                ts
                (run_if (i = 0)
                   (moveTo (vx (take (nat (clamp b 1 3 + 1)) (drop i vertices) ! 0))
                           (vy (take (nat (clamp b 1 3 + 1)) (drop i vertices) ! 0)))
                   ctx) of
           Next ctx' \<Rightarrow> bezier_segments b ts vertices (i + nat (clamp b 1 3)) ctx'
         | Return ctx' \<Rightarrow> Return ctx'
         | Throw e \<Rightarrow> Throw e)
      else Next ctx)"
  by pat_completeness auto
termination
  by (relation "measure (\<lambda>(b, ts, vertices, i, ctx). length vertices - i)")
     (auto simp: clamp_def)

declare bezier_segments.simps [simp del]

definition catmull_rom_sample :: "vec2 list \<Rightarrow> rat \<Rightarrow> rat \<Rightarrow> context2d \<Rightarrow> context2d" where
  "catmull_rom_sample points tension t ctx =
     lineTo (dot (map vx points) (CATMULL_ROM_BASIS_VECTOR t tension))
            (dot (map vy points) (CATMULL_ROM_BASIS_VECTOR t tension)) ctx"

definition catmull_rom_segments ::
  "rat list \<Rightarrow> rat \<Rightarrow> vec2 list \<Rightarrow> context2d \<Rightarrow> context2d"
where
  \<comment> \<open>\<^verbatim>\<open>for (let i = 1; i < vertices.length - 2; i++) { ... }\<close>\<close>
  "catmull_rom_segments ts tension vertices ctx =
     fold (\<lambda>i. fold (catmull_rom_sample
                       [vertices ! (i - 1), vertices ! i, vertices ! (i + 1), vertices ! (i + 2)]
                       tension) ts)
       [1..<length vertices - 2] ctx"

definition path_with ::
  "(rat \<Rightarrow> string) \<Rightarrow> rat list \<Rightarrow> context2d \<Rightarrow> vec2 list \<Rightarrow> style_options option
     \<Rightarrow> error + context2d"
where
  \<comment> \<open>\<^verbatim>\<open>path\<close>, given the values \<open>ts\<close> that the sampling loop header produces\<close>
  "path_with numstr ts ctx vertices style =
     (if length vertices < 2 then Inr ctx
      else
        let ctx = save ctx;
            actualStyle = getStyle style
        in and_then (apply_stroke_style numstr actualStyle ctx) (\<lambda>ctx.
             let ctx = run_if (\<not> truthy (batch actualStyle)) beginPath ctx;
                 path_kind = (case pathType actualStyle of None \<Rightarrow> Linear | Some k \<Rightarrow> k)
             in case (case path_kind of
                        Linear \<Rightarrow> Next (line_through vertices ctx)
                      | Bezier \<Rightarrow>
                          bezier_segments
                            (case bezierOrder actualStyle of None \<Rightarrow> 3 | Some b \<Rightarrow> b)
                            ts vertices 0 ctx
                      | CatmullRom \<Rightarrow>
                          let tension =
                                (case catmullRomTension actualStyle of
                                   None \<Rightarrow> 1 / 2 | Some v \<Rightarrow> v)
                          in if 4 \<le> length vertices then
                               Next (catmull_rom_segments ts tension vertices
                                      (moveTo (vx (vertices ! 1)) (vy (vertices ! 1)) ctx))
                             else Next (line_through vertices ctx)) of
                  Throw e \<Rightarrow> Inl e
                | Return ctx \<Rightarrow> Inr ctx
                | Next ctx \<Rightarrow>
                    Inr (restore
                          (run_if (truthy (stroke actualStyle) \<and> \<not> truthy (batch actualStyle))
                             strokePath ctx))))"

definition path ::
  "(rat \<Rightarrow> string) \<Rightarrow> context2d \<Rightarrow> vec2 list \<Rightarrow> style_options option
     \<Rightarrow> (error + context2d) option"
where
  \<comment> \<open>\<open>None\<close>: the call does not return\<close>
  "path numstr ctx vertices style =
     map_option (\<lambda>ts. path_with numstr ts ctx vertices style) (t_values 0)"


section \<open>Notions used in the statements\<close>

subsection \<open>The values of the sampling loop\<close>

text \<open>
  The 100 values that \<open>t\<close> takes in the sampling loop, as numerators over \<open>2^59\<close>; that the
  loop produces exactly these is the lemma \<open>t_values_0\<close>. The last one is
  \<open>0.9900000000000007\<close>; adding \<^verbatim>\<open>0.01\<close> to it gives \<open>1.0000000000000007\<close>.
\<close>

definition loop_ts :: "rat list" where
  "loop_ts =
     map (\<lambda>n. of_int n / 2 ^ 59)
     [0, 5764607523034235, 11529215046068470, 17293822569102704,
      23058430092136940, 28823037615171176, 34587645138205412, 40352252661239648,
      46116860184273880, 51881467707308112, 57646075230342344, 63410682753376576,
      69175290276410808, 74939897799445040, 80704505322479280, 86469112845513520,
      92233720368547760, 97998327891582000, 103762935414616240, 109527542937650480,
      115292150460684720, 121056757983718960, 126821365506753200, 132585973029787440,
      138350580552821680, 144115188075855904, 149879795598890144, 155644403121924384,
      161409010644958624, 167173618167992864, 172938225691027104, 178702833214061344,
      184467440737095584, 190232048260129824, 195996655783164064, 201761263306198304,
      207525870829232544, 213290478352266784, 219055085875301024, 224819693398335264,
      230584300921369504, 236348908444403744, 242113515967437984, 247878123490472224,
      253642731013506464, 259407338536540704, 265171946059574944, 270936553582609184,
      276701161105643424, 282465768628677664, 288230376151711872, 293994983674746112,
      299759591197780352, 305524198720814592, 311288806243848832, 317053413766883072,
      322818021289917312, 328582628812951552, 334347236335985792, 340111843859020032,
      345876451382054272, 351641058905088512, 357405666428122752, 363170273951156992,
      368934881474191232, 374699488997225472, 380464096520259712, 386228704043293952,
      391993311566328192, 397757919089362432, 403522526612396672, 409287134135430912,
      415051741658465152, 420816349181499392, 426580956704533632, 432345564227567872,
      438110171750602112, 443874779273636352, 449639386796670592, 455403994319704832,
      461168601842739072, 466933209365773312, 472697816888807552, 478462424411841792,
      484227031934876032, 489991639457910272, 495756246980944512, 501520854503978752,
      507285462027012992, 513050069550047232, 518814677073081472, 524579284596115712,
      530343892119149952, 536108499642184192, 541873107165218432, 547637714688252672,
      553402322211286912, 559166929734321152, 564931537257355392, 570696144780389632]"

fun sampled_from :: "rat \<Rightarrow> rat list \<Rightarrow> bool" where
  \<comment> \<open>the list holds the successive values of the loop variable, starting from \<open>t\<close>\<close>
  "sampled_from t [] = (1 < t)"
| "sampled_from t (a # as) = (a = t \<and> a \<le> 1 \<and> sampled_from (fadd a step) as)"

subsection \<open>Runs of calls\<close>

text \<open>
  \<open>draws\<close> is the surface after a run of calls that leave the drawing state alone, and
  \<open>styled\<close> relates a surface to itself after style assignments. The lists that follow
  are what the parts of an emitter send: the begin of a path unless \<open>batch\<close>, the fill and
  the stroke by the flags of the resolved style, and the geometry of a cross, a
  rectangle and a line through vertices.
\<close>

definition draws :: "call list \<Rightarrow> context2d \<Rightarrow> context2d" where
  \<comment> \<open>the surface after a run of calls that leave the drawing state alone\<close>
  "draws cs ctx = ctx\<lparr>calls := calls ctx @ cs\<rparr>"

fun is_style_call :: "call \<Rightarrow> bool" where
  "is_style_call (SetStrokeStyle p) = True"
| "is_style_call (SetFillStyle p) = True"
| "is_style_call (SetLineWidth w) = True"
| "is_style_call (SetLineDash d) = True"
| "is_style_call c = False"

definition styled :: "context2d \<Rightarrow> context2d \<Rightarrow> bool" where
  \<comment> \<open>\<open>ctx'\<close> is \<open>ctx\<close> after style assignments only\<close>
  "styled ctx ctx' =
     (saved ctx' = saved ctx \<and>
      (\<exists>pre. calls ctx' = calls ctx @ pre \<and> list_all is_style_call pre))"

definition begin_calls :: "style_options \<Rightarrow> call list" where
  "begin_calls s = (if truthy (batch s) then [] else [BeginPath])"

definition fill_calls :: "style_options \<Rightarrow> call list" where
  "fill_calls s = (if truthy (fill s) \<and> \<not> truthy (batch s) then [Fill] else [])"

definition stroke_calls :: "style_options \<Rightarrow> call list" where
  "stroke_calls s = (if truthy (stroke s) \<and> \<not> truthy (batch s) then [Stroke] else [])"

definition cross_calls :: "style_options \<Rightarrow> vec2 \<Rightarrow> rat \<Rightarrow> call list" where
  "cross_calls s position cross_size =
     (if crossStyle s = Some PlusCross then
        [MoveTo (vx position - cross_size / 2) (vy position),
         LineTo (vx position + cross_size / 2) (vy position),
         MoveTo (vx position) (vy position - cross_size / 2),
         LineTo (vx position) (vy position + cross_size / 2)]
      else if crossStyle s = Some XCross then
        [MoveTo (vx position - cross_size / 2) (vy position - cross_size / 2),
         LineTo (vx position + cross_size / 2) (vy position + cross_size / 2),
         MoveTo (vx position - cross_size / 2) (vy position + cross_size / 2),
         LineTo (vx position + cross_size / 2) (vy position - cross_size / 2)]
      else [])"

definition rectangle_calls :: "style_options \<Rightarrow> vec2 \<Rightarrow> vec2 \<Rightarrow> call list" where
  "rectangle_calls s position rect_size =
     (if truthy (rounded s) then
        [RoundRect (vx position) (vy position) (vx rect_size) (vy rect_size)
           (case borderRadius s of None \<Rightarrow> 1 | Some r \<Rightarrow> r)]
      else [Rect (vx position) (vy position) (vx rect_size) (vy rect_size)])"

definition polyline_calls :: "vec2 list \<Rightarrow> call list" where
  \<comment> \<open>move to the first vertex, then one line to each of the others\<close>
  "polyline_calls vertices =
     MoveTo (vx (vertices ! 0)) (vy (vertices ! 0))
     # map (\<lambda>v. LineTo (vx v) (vy v)) (tl vertices)"

subsection \<open>Curves\<close>

text \<open>
  Bezier curves in Bernstein form, and the windows of the specification: the start indices
  \<open>0, n, 2n, ...\<close> of the windows of \<open>n + 1\<close> vertices that fit into \<open>len\<close> vertices.
  \<open>starts_from\<close> lists those from index \<open>i\<close> on, a step of \<open>n\<close> apart. \<open>window_calls\<close> is
  what one window contributes: the move to the first vertex if it is the first window,
  then one line per sampled parameter. \<open>catmull_rom_calls\<close> lists the lines of the
  Catmull-Rom segments, and \<open>path_calls\<close> is what the path emitter adds to the current
  path, by path type.
\<close>

definition weighted_sum :: "(rat \<times> vec2) list \<Rightarrow> vec2" where
  "weighted_sum ws =
     \<lparr>vx = sum_list (map (\<lambda>(w, p). w * vx p) ws), vy = sum_list (map (\<lambda>(w, p). w * vy p) ws)\<rparr>"

definition bezier_curve :: "int \<Rightarrow> vec2 list \<Rightarrow> rat \<Rightarrow> vec2" where
  "bezier_curve order ps t =
     (if order = 1 then weighted_sum [(1 - t, ps ! 0), (t, ps ! 1)]
      else if order = 2 then
        weighted_sum [((1 - t) ^ 2, ps ! 0), (2 * t * (1 - t), ps ! 1), (t ^ 2, ps ! 2)]
      else
        weighted_sum [((1 - t) ^ 3, ps ! 0), (3 * t * (1 - t) ^ 2, ps ! 1),
                      (3 * t ^ 2 * (1 - t), ps ! 2), (t ^ 3, ps ! 3)])"

definition window_starts :: "nat \<Rightarrow> nat \<Rightarrow> nat list" where
  "window_starts n len = map (\<lambda>k. k * n) [0..<(len - 1) div n]"

definition starts_from :: "nat \<Rightarrow> nat \<Rightarrow> nat \<Rightarrow> nat list" where
  "starts_from n len i = map (\<lambda>k. i + k * n) [0..<(len - i - 1) div n]"

definition window_calls :: "nat \<Rightarrow> rat list \<Rightarrow> vec2 list \<Rightarrow> nat \<Rightarrow> call list" where
  "window_calls n ts vertices s =
     (if s = 0 then [MoveTo (vx (vertices ! 0)) (vy (vertices ! 0))] else [])
     @ map (\<lambda>t. LineTo (vx (bezier_curve (int n) (take (n + 1) (drop s vertices)) t))
                      (vy (bezier_curve (int n) (take (n + 1) (drop s vertices)) t))) ts"

definition bezier_calls :: "int \<Rightarrow> rat list \<Rightarrow> vec2 list \<Rightarrow> call list" where
  "bezier_calls b ts vertices =
     concat (map (window_calls (nat (clamp b 1 3)) ts vertices)
                 (window_starts (nat (clamp b 1 3)) (length vertices)))"

definition catmull_rom_calls :: "rat list \<Rightarrow> rat \<Rightarrow> vec2 list \<Rightarrow> call list" where
  "catmull_rom_calls ts tension vertices =
     concat (map (\<lambda>i. map (\<lambda>t.
         LineTo (dot (map vx [vertices ! (i - 1), vertices ! i, vertices ! (i + 1), vertices ! (i + 2)])
                     (CATMULL_ROM_BASIS_VECTOR t tension))
                (dot (map vy [vertices ! (i - 1), vertices ! i, vertices ! (i + 1), vertices ! (i + 2)])
                     (CATMULL_ROM_BASIS_VECTOR t tension))) ts)
       [1..<length vertices - 2])"

definition path_calls :: "rat list \<Rightarrow> vec2 list \<Rightarrow> style_options \<Rightarrow> call list" where
  "path_calls ts vertices s =
     (case (case pathType s of None \<Rightarrow> Linear | Some k \<Rightarrow> k) of
        Linear \<Rightarrow> polyline_calls vertices
      | Bezier \<Rightarrow> bezier_calls (case bezierOrder s of None \<Rightarrow> 3 | Some b \<Rightarrow> b) ts vertices
      | CatmullRom \<Rightarrow>
          if 4 \<le> length vertices then
            MoveTo (vx (vertices ! 1)) (vy (vertices ! 1))
            # catmull_rom_calls ts (case catmullRomTension s of None \<Rightarrow> 1 / 2 | Some v \<Rightarrow> v)
                vertices
          else polyline_calls vertices)"

subsection \<open>What a call leaves behind\<close>

text \<open>
  \<open>restored\<close>: the call returned, and the drawing state and the stack of saved states are
  what they were. \<open>emits\<close>: the call returned, and the surface received \<^verbatim>\<open>save\<close>, style
  assignments, the given calls and \<^verbatim>\<open>restore\<close>, in this order.
  \<open>arrowhead_keeps_stack\<close>: a custom arrowhead, if the resolved style has one, leaves the
  stack of saved states as it finds it. \<open>is_color_shape\<close> is the shape test of
  \<open>prepareColor\<close> in the words of the specification: an object that has \<open>r\<close>, \<open>g\<close> and \<open>b\<close>,
  and whose \<open>a\<close> is a number or absent.
\<close>

definition restored :: "context2d \<Rightarrow> error + context2d \<Rightarrow> bool" where
  "restored ctx r = (\<exists>c. r = Inr c \<and> state c = state ctx \<and> saved c = saved ctx)"

definition emits :: "context2d \<Rightarrow> error + context2d \<Rightarrow> call list \<Rightarrow> bool" where
  "emits ctx r body =
     (\<exists>c pre. r = Inr c \<and> list_all is_style_call pre \<and>
              calls c = calls ctx @ [Save] @ pre @ body @ [Restore])"

definition arrowhead_keeps_stack :: "style_options option \<Rightarrow> bool" where
  "arrowhead_keeps_stack style =
     (case arrow_field (getStyle style) of
        Some (Value a) \<Rightarrow>
          (case arrow_type a of
             Some (Custom f) \<Rightarrow> (\<forall>c n. saved (f c n) = saved c)
           | _ \<Rightarrow> True)
      | _ \<Rightarrow> True)"

fun is_color_shape :: "jsval \<Rightarrow> bool" where
  "is_color_shape (JObj kvs) =
     (map_of kvs ''r'' \<noteq> None \<and> map_of kvs ''g'' \<noteq> None \<and> map_of kvs ''b'' \<noteq> None \<and>
      (case map_of kvs ''a'' of None \<Rightarrow> True | Some a \<Rightarrow> typeof a = ''number''))"
| "is_color_shape v = False"

subsection \<open>Sample inputs\<close>

text \<open>
  A number printer for the numbers of the examples, a fresh surface, two custom
  arrowheads (one draws a filled dot, one pops the stack of saved states twice and sets
  the line width), some styles and two lists of four vertices.
\<close>

definition example_numstr :: "rat \<Rightarrow> string" where
  "example_numstr q =
     (if q = 0 then ''0'' else if q = 1 then ''1'' else if q = 255 then ''255'' else ''?'')"

definition example_context :: context2d where
  "example_context =
     \<lparr>state = \<lparr>strokeStyle = CssColor ''#000000'', fillStyle = CssColor ''#000000'',
               currentLineWidth = 1, currentLineDash = [], transform = []\<rparr>,
      saved = [], calls = []\<rparr>"

definition dot_arrowhead :: "context2d \<Rightarrow> rat \<Rightarrow> context2d" where
  "dot_arrowhead c n = fillPath (arc 0 0 n Zero TwoPi (beginPath c))"

definition popping_arrowhead :: "context2d \<Rightarrow> rat \<Rightarrow> context2d" where
  "popping_arrowhead c n = set_lineWidth 7 (restore (restore c))"

definition example_style :: style_options where
  "example_style =
     empty_object
       \<lparr>strokeColor := Some (Value (ColorObject 255 0 0 None)),
        arrow_field := Some (Value \<lparr>arrow_type = Some (Custom dot_arrowhead), arrow_size = None\<rparr>),
        pathType := Some Bezier\<rparr>"

definition popping_style :: style_options where
  "popping_style =
     empty_object
       \<lparr>arrow_field :=
          Some (Value \<lparr>arrow_type = Some (Custom popping_arrowhead), arrow_size = None\<rparr>)\<rparr>"

definition filling_style :: style_options where
  "filling_style = empty_object\<lparr>fill := Some True, fillColor := Some (Value (ColorString ''red''))\<rparr>"

definition chevron_style :: style_options where
  "chevron_style =
     empty_object\<lparr>arrow_field := Some (Value \<lparr>arrow_type = Some Chevron, arrow_size = None\<rparr>)\<rparr>"

definition bezier_style :: style_options where
  "bezier_style = empty_object\<lparr>pathType := Some Bezier, bezierOrder := Some 4\<rparr>"

definition cubic_style :: style_options where
  "cubic_style = empty_object\<lparr>pathType := Some Bezier, bezierOrder := Some 3\<rparr>"

definition catmull_rom_style :: style_options where
  "catmull_rom_style = empty_object\<lparr>pathType := Some CatmullRom\<rparr>"

definition example_vertices :: "vec2 list" where
  "example_vertices =
     [\<lparr>vx = 0, vy = 0\<rparr>, \<lparr>vx = 1, vy = 2\<rparr>, \<lparr>vx = 2, vy = 2\<rparr>, \<lparr>vx = 3, vy = 0\<rparr>]"

definition spline_vertices :: "vec2 list" where
  "spline_vertices =
     [\<lparr>vx = 0, vy = 0\<rparr>, \<lparr>vx = 1, vy = 2\<rparr>, \<lparr>vx = 2, vy = 1\<rparr>, \<lparr>vx = 3, vy = 3\<rparr>]"

section \<open>The sampling loop\<close>

lemma bitlen_numeral_rec:
  "bitlen (numeral n) = bitlen (numeral n div 2) + 1" "bitlen 1 = 1"
  by (subst compute_bitlen, simp)+

lemma floor_numeral_div: "\<lfloor>numeral a / numeral b :: rat\<rfloor> = numeral a div numeral b"
  using floor_divide_of_int_eq [of "numeral a" "numeral b", where ?'a = rat] by simp

lemma ceiling_numeral_div: "\<lceil>numeral a / numeral b :: rat\<rceil> = - ((- numeral a) div numeral b)"
  using floor_divide_of_int_eq [of "- numeral a" "numeral b", where ?'a = rat]
  by (simp add: ceiling_def)

lemmas fl_eval =
  fadd_def fl_def binade_def round_half_even_def pow2_def Let_def
  bitlen_numeral_rec floor_numeral_div ceiling_numeral_div

lemma step_value: "step = 5764607523034235 / 576460752303423488"
  by (simp add: step_def fl_eval)

text \<open>
  Two familiar facts of binary64 arithmetic, as a check of \<open>fl\<close>: the literal \<^verbatim>\<open>0.1\<close>, and
  \<^verbatim>\<open>0.1 + 0.2\<close>, which is \<open>0.30000000000000004\<close>.
\<close>

lemma fl_tenth: "fl (1 / 10) = 3602879701896397 / 36028797018963968"
  by (simp add: fl_eval)

lemma fl_tenth_plus_fifth: "fadd (fl (1 / 10)) (fl (2 / 10)) = 1351079888211149 / 4503599627370496"
  by (simp add: fl_eval)

lemma t_values_sampled: "sampled_from t xs \<Longrightarrow> t_values t = Some xs"
proof (induction xs arbitrary: t)
  case Nil
  then show ?case by (subst t_values.simps) simp
next
  case (Cons a as)
  from Cons.prems have t: "a = t" "t \<le> 1" and rest: "sampled_from (fadd t step) as"
    by auto
  from Cons.IH [OF rest] t show ?case
    by (subst t_values.simps) simp
qed

lemma sampled_loop_ts: "sampled_from 0 loop_ts"
  by (simp add: loop_ts_def step_value fl_eval)

lemma t_values_0: "t_values 0 = Some loop_ts"
  by (rule t_values_sampled) (rule sampled_loop_ts)

lemma length_loop_ts: "length loop_ts = 100"
  by (simp add: loop_ts_def)

section \<open>Calls, styles and the shape emitters\<close>

lemma draws_simps [simp]:
  "calls (draws cs ctx) = calls ctx @ cs"
  "state (draws cs ctx) = state ctx"
  "saved (draws cs ctx) = saved ctx"
  "draws cs (draws ds ctx) = draws (ds @ cs) ctx"
  "draws [] ctx = ctx"
  by (simp_all add: draws_def)

lemma received_draws: "received c = draws [c]"
  by (simp add: fun_eq_iff received_def draws_def)

lemma path_ops_draws:
  "beginPath = draws [BeginPath]"
  "closePath = draws [ClosePath]"
  "moveTo a b = draws [MoveTo a b]"
  "lineTo a b = draws [LineTo a b]"
  "arc a b r a0 a1 = draws [Arc a b r a0 a1]"
  "rect a b w h = draws [Rect a b w h]"
  "roundRect a b w h r = draws [RoundRect a b w h r]"
  "fillPath = draws [Fill]"
  "strokePath = draws [Stroke]"
  by (simp_all add: beginPath_def closePath_def moveTo_def lineTo_def arc_def rect_def
      roundRect_def fillPath_def strokePath_def received_draws)

lemma save_simps [simp]:
  "calls (save ctx) = calls ctx @ [Save]"
  "state (save ctx) = state ctx"
  "saved (save ctx) = state ctx # saved ctx"
  by (simp_all add: save_def received_def)

lemma restore_simps [simp]:
  "calls (restore ctx) = calls ctx @ [Restore]"
  "saved ctx = s # ss \<Longrightarrow> state (restore ctx) = s"
  "saved ctx = s # ss \<Longrightarrow> saved (restore ctx) = ss"
  by (simp_all add: restore_def received_def split: list.splits)

lemma setter_simps [simp]:
  "calls (set_strokeStyle p ctx) = calls ctx @ [SetStrokeStyle p]"
  "saved (set_strokeStyle p ctx) = saved ctx"
  "calls (set_fillStyle p ctx) = calls ctx @ [SetFillStyle p]"
  "saved (set_fillStyle p ctx) = saved ctx"
  "calls (set_lineWidth w ctx) = calls ctx @ [SetLineWidth w]"
  "saved (set_lineWidth w ctx) = saved ctx"
  "calls (setLineDash d ctx) = calls ctx @ [SetLineDash d]"
  "saved (setLineDash d ctx) = saved ctx"
  "calls (translate a b ctx) = calls ctx @ [Translate a b]"
  "saved (translate a b ctx) = saved ctx"
  "calls (rotate r ctx) = calls ctx @ [Rotate r]"
  "saved (rotate r ctx) = saved ctx"
  by (simp_all add: set_strokeStyle_def set_fillStyle_def set_lineWidth_def setLineDash_def
      translate_def rotate_def received_def)

lemma run_if_draws [simp]: "run_if b (draws cs) ctx = draws (if b then cs else []) ctx"
  by (simp add: run_if_def)

lemma and_then_simps [simp]:
  "and_then (Inr v) f = f v"
  "and_then (Inl e) f = Inl e"
  by (simp_all add: and_then_def)

text \<open>Colours of the declared type never make \<open>prepareColor\<close> raise.\<close>

lemma prepareColor_typed:
  "js_of_color_field f \<noteq> JNull \<Longrightarrow> \<exists>c. prepareColor numstr (js_of_color_field f) = Inr c"
proof (cases f)
  case None
  then show ?thesis by (simp add: prepareColor_def isColorObject_def)
next
  case (Some n)
  assume nn: "js_of_color_field f \<noteq> JNull"
  show ?thesis
  proof (cases n)
    case Null
    with Some nn show ?thesis by simp
  next
    case (Value c)
    with Some show ?thesis
      by (cases c) (auto simp: prepareColor_def isColorObject_def split: option.splits)
  qed
qed

lemma addColorStops_typed: "\<exists>r. addColorStops numstr stops acc = Inr r"
proof (induction stops arbitrary: acc)
  case Nil
  then show ?case by simp
next
  case (Cons stop stops)
  have "js_of_color_field (Some (Value (stop_color stop))) \<noteq> JNull"
    by (cases "stop_color stop") simp_all
  from prepareColor_typed [OF this, of numstr] obtain c
    where "prepareColor numstr (js_of_color (stop_color stop)) = Inr c" by auto
  with Cons.IH show ?case by simp
qed

lemma prepareGradient_typed: "\<exists>g. prepareGradient numstr gr = Inr g"
proof -
  { fix g :: gradient_options obtain r where "addColorStops numstr (colorStops g) [] = Inr r"
      using addColorStops_typed by blast
    then have "\<exists>h. prepareGradient numstr (Some (Value g)) = Inr h"
      by (simp add: prepareGradient_def) }
  then show ?thesis
    by (cases gr) (auto simp: prepareGradient_def split: nullable.splits)
qed

lemma styled_refl: "styled ctx ctx"
  by (simp add: styled_def)

lemma styled_trans: "styled a b \<Longrightarrow> styled b c \<Longrightarrow> styled a c"
  by (auto simp: styled_def)

lemma apply_stroke_style_ok:
  assumes "lineDash s \<noteq> None"
  shows "\<exists>ctx'. apply_stroke_style numstr s ctx = Inr ctx' \<and> styled ctx ctx'"
proof -
  obtain c1 where c1:
    "(if js_of_color_field (strokeColor s) \<noteq> JNull
        then and_then (prepareColor numstr (js_of_color_field (strokeColor s)))
               (\<lambda>c. Inr (set_strokeStyle (CssColor c) ctx))
        else Inr ctx) = Inr c1" and s1: "styled ctx c1"
    using prepareColor_typed [of "strokeColor s" numstr]
    by (cases "js_of_color_field (strokeColor s) = JNull") (auto simp: styled_def)
  have "\<exists>ctx'. (let ctx = (case lineWidth s of Some (Value w) \<Rightarrow> set_lineWidth w c1 | _ \<Rightarrow> c1)
          in case lineDash s of Some (Value d) \<Rightarrow> Inr (setLineDash d ctx)
             | Some Null \<Rightarrow> Inr ctx | None \<Rightarrow> Inl TypeError) = Inr ctx' \<and> styled c1 ctx'"
    using assms by (auto simp: styled_def Let_def split: option.splits nullable.splits)
  then obtain c3 where
    "apply_stroke_style numstr s ctx = Inr c3" and s3: "styled c1 c3"
    unfolding apply_stroke_style_def c1 by auto
  with styled_trans [OF s1 s3] show ?thesis by blast
qed

lemma apply_fill_style_ok:
  "\<exists>ctx'. apply_fill_style numstr s ctx = Inr ctx' \<and> styled ctx ctx'"
proof -
  obtain c1 where c1:
    "(if js_of_color_field (fillColor s) \<noteq> JNull
        then and_then (prepareColor numstr (js_of_color_field (fillColor s)))
               (\<lambda>c. Inr (set_fillStyle (CssColor c) ctx))
        else Inr ctx) = Inr c1" and s1: "styled ctx c1"
    using prepareColor_typed [of "fillColor s" numstr]
    by (cases "js_of_color_field (fillColor s) = JNull") (auto simp: styled_def)
  obtain g where g: "prepareGradient numstr (gradient s) = Inr g"
    using prepareGradient_typed by blast
  define c2 where "c2 = (case g of None \<Rightarrow> c1 | Some h \<Rightarrow> set_fillStyle (GradientPaint h) c1)"
  have s2: "styled c1 c2"
    by (auto simp: c2_def styled_def split: option.splits)
  have "apply_fill_style numstr s ctx = Inr c2"
    unfolding apply_fill_style_def c1 by (simp add: g c2_def split: option.splits)
  with styled_trans [OF s1 s2] show ?thesis by blast
qed

lemma lineDash_getStyle: "lineDash (getStyle style) \<noteq> None"
  by (simp add: getStyle_def assign_def own_def)

lemma fold_lineTo:
  "fold (\<lambda>i. lineTo (f i) (g i)) is ctx = draws (map (\<lambda>i. LineTo (f i) (g i)) is) ctx"
  by (induction "is" arbitrary: ctx) (simp_all add: path_ops_draws)

lemma map_nth_from_1: "xs \<noteq> [] \<Longrightarrow> map (\<lambda>i. h (xs ! i)) [1..<length xs] = map h (tl xs)"
proof (cases xs)
  case Nil
  assume "xs \<noteq> []"
  with Nil show ?thesis by simp
next
  case (Cons x ys)
  have "[1..<length xs] = map Suc [0..<length ys]"
    using Cons by (simp add: map_Suc_upt)
  then have "map (\<lambda>i. h (xs ! i)) [1..<length xs] = map (\<lambda>i. h (ys ! i)) [0..<length ys]"
    using Cons by (simp add: comp_def)
  also have "\<dots> = map h (map (\<lambda>i. ys ! i) [0..<length ys])"
    by (simp add: comp_def)
  also have "\<dots> = map h ys"
    by (simp add: map_nth)
  finally show ?thesis using Cons by simp
qed

lemma line_through_draws:
  "vertices \<noteq> [] \<Longrightarrow>
   line_through vertices ctx = draws (polyline_calls vertices) ctx"
  unfolding line_through_def fold_lineTo
  using map_nth_from_1 [of vertices "\<lambda>v. LineTo (vx v) (vy v)"]
  by (simp add: path_ops_draws polyline_calls_def)

lemmas part_defs = stroke_calls_def fill_calls_def begin_calls_def

lemma line_anatomy:
  "\<exists>c. styled (save ctx) c \<and>
       line numstr ctx start end_point style =
         Inr (restore (draws (begin_calls (getStyle style)
                @ [MoveTo (vx start) (vy start), LineTo (vx end_point) (vy end_point)]
                @ stroke_calls (getStyle style)) c))"
proof -
  obtain c where c: "apply_stroke_style numstr (getStyle style) (save ctx) = Inr c"
    and s: "styled (save ctx) c"
    using apply_stroke_style_ok [OF lineDash_getStyle] by blast
  have "line numstr ctx start end_point style =
         Inr (restore (draws (begin_calls (getStyle style)
                @ [MoveTo (vx start) (vy start), LineTo (vx end_point) (vy end_point)]
                @ stroke_calls (getStyle style)) c))"
    unfolding line_def Let_def c by (simp add: path_ops_draws part_defs)
  with s show ?thesis by blast
qed

lemma cross_anatomy:
  "\<exists>c. styled (save ctx) c \<and>
       cross numstr ctx position cross_size style =
         Inr (restore (draws (begin_calls (getStyle style)
                @ cross_calls (getStyle style) position cross_size
                @ stroke_calls (getStyle style)) c))"
proof -
  obtain c where c: "apply_stroke_style numstr (getStyle style) (save ctx) = Inr c"
    and s: "styled (save ctx) c"
    using apply_stroke_style_ok [OF lineDash_getStyle] by blast
  have "cross numstr ctx position cross_size style =
         Inr (restore (draws (begin_calls (getStyle style)
                @ cross_calls (getStyle style) position cross_size
                @ stroke_calls (getStyle style)) c))"
    unfolding cross_def Let_def c by (simp add: path_ops_draws part_defs cross_calls_def)
  with s show ?thesis by blast
qed

lemma fill_and_stroke_style_ok:
  "\<exists>c. and_then (apply_fill_style numstr (getStyle style) ctx)
          (\<lambda>ctx. and_then (apply_stroke_style numstr (getStyle style) ctx) k) = k c
       \<and> styled ctx c"
proof -
  obtain c1 where c1: "apply_fill_style numstr (getStyle style) ctx = Inr c1"
    and s1: "styled ctx c1"
    using apply_fill_style_ok by blast
  obtain c2 where c2: "apply_stroke_style numstr (getStyle style) c1 = Inr c2"
    and s2: "styled c1 c2"
    using apply_stroke_style_ok [OF lineDash_getStyle] by blast
  show ?thesis
    using styled_trans [OF s1 s2] by (intro exI [of _ c2]) (simp add: c1 c2)
qed

lemma circle_anatomy:
  "\<exists>c. styled (save ctx) c \<and>
       circle numstr ctx center radius style =
         Inr (restore (draws (begin_calls (getStyle style)
                @ [Arc (vx center) (vy center) radius Zero TwoPi]
                @ fill_calls (getStyle style) @ stroke_calls (getStyle style)) c))"
proof -
  let ?k = "\<lambda>ctx. let ctx = run_if (\<not> truthy (batch (getStyle style))) beginPath ctx;
               ctx = arc (vx center) (vy center) radius Zero TwoPi ctx;
               ctx = run_if (truthy (fill (getStyle style)) \<and> \<not> truthy (batch (getStyle style)))
                       fillPath ctx;
               ctx = run_if (truthy (stroke (getStyle style)) \<and> \<not> truthy (batch (getStyle style)))
                       strokePath ctx
           in Inr (restore ctx) :: error + context2d"
  obtain c where c: "and_then (apply_fill_style numstr (getStyle style) (save ctx))
          (\<lambda>ctx. and_then (apply_stroke_style numstr (getStyle style) ctx) ?k) = ?k c"
    and s: "styled (save ctx) c"
    using fill_and_stroke_style_ok [of numstr style "save ctx" ?k] by blast
  have "circle numstr ctx center radius style = ?k c"
    unfolding circle_def Let_def using c unfolding Let_def .
  then have "circle numstr ctx center radius style =
         Inr (restore (draws (begin_calls (getStyle style)
                @ [Arc (vx center) (vy center) radius Zero TwoPi]
                @ fill_calls (getStyle style) @ stroke_calls (getStyle style)) c))"
    by (simp add: Let_def path_ops_draws part_defs)
  with s show ?thesis by blast
qed

section \<open>Style resolution\<close>

lemma own_idem: "own t (own t s) = own t s"
  by (simp add: own_def split: option.splits)

lemma map_add_absorb: "m ++ m ++ n = m ++ n"
  by (rule ext) (simp add: map_add_def split: option.splits)

lemma assign_idem: "assign t (assign t s) = assign t s"
  by (simp add: assign_def own_idem map_add_absorb)

lemma getStyle_supplied_dash:
  assumes "lineDash r = Some d"
  shows "getStyle (Some r) = assign DEFAULT_STYLE_OPTIONS r"
proof -
  have "r\<lparr>lineDash := Some d\<rparr> = r" using assms by simp
  then show ?thesis unfolding getStyle_def by (simp only: assms option.case)
qed

lemma getStyle_assign: "\<exists>x. getStyle style = assign DEFAULT_STYLE_OPTIONS x"
  unfolding getStyle_def by blast

section \<open>Colours\<close>

lemma typeof_number: "typeof a = ''number'' \<longleftrightarrow> (\<exists>n. a = JNum n)"
  by (cases a) simp_all

lemma isColorObject_shape:
  "v \<noteq> JNull \<Longrightarrow> isColorObject v = Inr (is_color_shape v)"
  by (cases v) (auto simp: isColorObject_def split: option.splits)

section \<open>Bezier windows\<close>

lemma clamp_order: "clamp b 1 3 = 1 \<or> clamp b 1 3 = 2 \<or> clamp b 1 3 = 3"
  by (auto simp: clamp_def)

lemma upt_2: "[0..<2] = [0, 1]" and upt_3: "[0..<3] = [0, 1, 2]" and upt_4: "[0..<4] = [0, 1, 2, 3]"
  by (simp_all add: upt_rec)

lemma bezier_sample_1:
  "bezier_sample 1 ps t ctx =
     Next (lineTo (vx (bezier_curve 1 ps t)) (vy (bezier_curve 1 ps t)) ctx)"
  by (simp add: bezier_sample_def BEZIER_MATRICES_def BEZIER_COEFFICIENTS_def mulv_def
      mat_row_def dot_def bezier_point_def bezier_curve_def weighted_sum_def upt_2
      algebra_simps)

lemma bezier_sample_2:
  "bezier_sample 2 ps t ctx =
     Next (lineTo (vx (bezier_curve 2 ps t)) (vy (bezier_curve 2 ps t)) ctx)"
  by (simp add: bezier_sample_def BEZIER_MATRICES_def BEZIER_COEFFICIENTS_def mulv_def
      mat_row_def dot_def bezier_point_def bezier_curve_def weighted_sum_def upt_3
      algebra_simps power2_eq_square)

lemma bezier_sample_3:
  "bezier_sample 3 ps t ctx =
     Next (lineTo (vx (bezier_curve 3 ps t)) (vy (bezier_curve 3 ps t)) ctx)"
  by (simp add: bezier_sample_def BEZIER_MATRICES_def BEZIER_COEFFICIENTS_def mulv_def
      mat_row_def dot_def bezier_point_def bezier_curve_def weighted_sum_def upt_4
      algebra_simps power2_eq_square power3_eq_cube)

lemma bezier_sample_clamped:
  "bezier_sample (clamp b 1 3) ps t ctx =
     Next (lineTo (vx (bezier_curve (clamp b 1 3) ps t)) (vy (bezier_curve (clamp b 1 3) ps t)) ctx)"
  using clamp_order [of b] bezier_sample_1 bezier_sample_2 bezier_sample_3 by metis

lemma for_each_lineTo:
  assumes "\<And>t c. body t c = Next (lineTo (f t) (g t) c)"
  shows "for_each body ts ctx = Next (draws (map (\<lambda>t. LineTo (f t) (g t)) ts) ctx)"
  by (induction ts arbitrary: ctx) (simp_all add: assms path_ops_draws)

lemma map_upt_Suc_0: "map f [0..<Suc k] = f 0 # map (\<lambda>j. f (Suc j)) [0..<k]"
  by (induction k) simp_all

lemma starts_from_step:
  assumes "0 < n" and "i + n + 1 \<le> len"
  shows "starts_from n len i = i # starts_from n len (i + n)"
proof -
  let ?m = "len - i - 1"
  have "n \<le> ?m" using assms by simp
  then have d: "?m div n = Suc ((?m - n) div n)"
    using assms(1) by (simp add: le_div_geq)
  have e: "len - (i + n) - 1 = ?m - n" by simp
  have "starts_from n len i = map (\<lambda>k. i + k * n) [0..<Suc ((?m - n) div n)]"
    unfolding starts_from_def d ..
  also have "\<dots> = i # map (\<lambda>j. i + Suc j * n) [0..<(?m - n) div n]"
    by (simp only: map_upt_Suc_0) simp
  also have "map (\<lambda>j. i + Suc j * n) [0..<(?m - n) div n] = starts_from n len (i + n)"
    unfolding starts_from_def e by (simp add: add.assoc)
  finally show ?thesis .
qed

lemma starts_from_done:
  assumes "0 < n" and "\<not> i + n + 1 \<le> len"
  shows "starts_from n len i = []"
proof -
  have "len - i - 1 < n" using assms by simp
  then show ?thesis by (simp add: starts_from_def)
qed

lemma starts_from_0: "starts_from n len 0 = window_starts n len"
  by (simp add: starts_from_def window_starts_def)

lemma window_head: "s + n + 1 \<le> length vertices \<Longrightarrow> take (n + 1) (drop s vertices) ! 0 = vertices ! s"
  by simp

lemma bezier_segments_draws:
  "bezier_segments b ts vertices i ctx =
     Next (draws (concat (map (window_calls (nat (clamp b 1 3)) ts vertices)
                              (starts_from (nat (clamp b 1 3)) (length vertices) i))) ctx)"
proof (induction b ts vertices i ctx rule: bezier_segments.induct)
  case (1 b ts vertices i ctx)
  obtain n where n: "clamp b 1 3 = int n" "0 < n"
    using clamp_order [of b] by (metis nat_numeral nat_one_as_int zero_less_numeral zero_less_one
        int_nat_eq zero_le_numeral zero_le_one)
  have unfold: "bezier_segments b ts vertices i ctx =
     (if i + (n + 1) \<le> length vertices then
        (case for_each (bezier_sample (int n) (take (n + 1) (drop i vertices))) ts
                (run_if (i = 0)
                   (moveTo (vx (take (n + 1) (drop i vertices) ! 0))
                           (vy (take (n + 1) (drop i vertices) ! 0))) ctx) of
           Next ctx' \<Rightarrow> bezier_segments b ts vertices (i + n) ctx'
         | Return ctx' \<Rightarrow> Return ctx'
         | Throw e \<Rightarrow> Throw e)
      else Next ctx)"
    by (subst bezier_segments.simps) (simp add: n nat_add_distrib cong: flow.case_cong)
  show ?case
  proof (cases "i + n + 1 \<le> length vertices")
    case False
    then have "bezier_segments b ts vertices i ctx = Next ctx"
      unfolding unfold by simp
    with False show ?thesis using starts_from_done [OF n(2)] by (simp add: n)
  next
    case True
    let ?seg = "take (n + 1) (drop i vertices)"
    let ?c0 = "run_if (i = 0) (moveTo (vx (?seg ! 0)) (vy (?seg ! 0))) ctx"
    let ?c1 = "draws (window_calls n ts vertices i) ctx"
    have c0: "?c0 = draws (if i = 0 then [MoveTo (vx (vertices ! 0)) (vy (vertices ! 0))] else []) ctx"
      using True by (auto simp: path_ops_draws)
    have sample: "\<And>t c. bezier_sample (int n) ?seg t c =
        Next (lineTo (vx (bezier_curve (int n) ?seg t)) (vy (bezier_curve (int n) ?seg t)) c)"
      using bezier_sample_clamped [of b] unfolding n .
    have fe: "for_each (bezier_sample (int n) ?seg) ts ?c0 = Next ?c1"
      unfolding c0 for_each_lineTo [of "bezier_sample (int n) ?seg", OF sample]
      by (simp add: window_calls_def)
    have ih: "bezier_segments b ts vertices (i + n) ?c1 =
       Next (draws (concat (map (window_calls n ts vertices)
                                (starts_from n (length vertices) (i + n)))) ?c1)"
      using "1.IH" [of ?c1] True fe by (simp add: n nat_add_distrib)
    have "bezier_segments b ts vertices i ctx = bezier_segments b ts vertices (i + n) ?c1"
      unfolding unfold using True fe by simp
    with ih show ?thesis
      using starts_from_step [OF n(2) True] by (simp add: n)
  qed
qed

lemma bezier_segments_from_0:
  "bezier_segments b ts vertices 0 ctx = Next (draws (bezier_calls b ts vertices) ctx)"
  by (simp add: bezier_segments_draws starts_from_0 bezier_calls_def)

section \<open>Paths, arrows and what an emitter leaves behind\<close>

lemma fold_draws:
  assumes "\<And>a c. f a c = draws (h a) c"
  shows "fold f as ctx = draws (concat (map h as)) ctx"
  by (induction as arbitrary: ctx) (simp_all add: assms)

lemma catmull_rom_segments_draws:
  "catmull_rom_segments ts tension vertices ctx =
     draws (catmull_rom_calls ts tension vertices) ctx"
proof -
  have inner: "\<And>pts c. fold (catmull_rom_sample pts tension) ts c =
      draws (map (\<lambda>t. LineTo (dot (map vx pts) (CATMULL_ROM_BASIS_VECTOR t tension))
                               (dot (map vy pts) (CATMULL_ROM_BASIS_VECTOR t tension))) ts) c"
  proof -
    fix pts c
    have "fold (catmull_rom_sample pts tension) ts c =
        draws (concat (map (\<lambda>t. [LineTo (dot (map vx pts) (CATMULL_ROM_BASIS_VECTOR t tension))
                               (dot (map vy pts) (CATMULL_ROM_BASIS_VECTOR t tension))]) ts)) c"
      by (rule fold_draws) (simp add: catmull_rom_sample_def path_ops_draws)
    then show "fold (catmull_rom_sample pts tension) ts c =
      draws (map (\<lambda>t. LineTo (dot (map vx pts) (CATMULL_ROM_BASIS_VECTOR t tension))
                               (dot (map vy pts) (CATMULL_ROM_BASIS_VECTOR t tension))) ts) c"
      by (simp add: concat_map_singleton)
  qed
  show ?thesis
    unfolding catmull_rom_segments_def catmull_rom_calls_def
    by (rule fold_draws) (rule inner)
qed

lemma rectangle_anatomy:
  "\<exists>c. styled (save ctx) c \<and>
       rectangle numstr ctx position rect_size style =
         Inr (restore (draws (begin_calls (getStyle style)
                @ rectangle_calls (getStyle style) position rect_size
                @ fill_calls (getStyle style) @ stroke_calls (getStyle style)) c))"
proof -
  let ?k = "\<lambda>ctx. let ctx = run_if (\<not> truthy (batch (getStyle style))) beginPath ctx;
               ctx =
                 (if truthy (rounded (getStyle style)) then
                    roundRect (vx position) (vy position) (vx rect_size) (vy rect_size)
                      (case borderRadius (getStyle style) of None \<Rightarrow> 1 | Some r \<Rightarrow> r) ctx
                  else rect (vx position) (vy position) (vx rect_size) (vy rect_size) ctx);
               ctx = run_if (truthy (fill (getStyle style)) \<and> \<not> truthy (batch (getStyle style)))
                       fillPath ctx;
               ctx = run_if (truthy (stroke (getStyle style)) \<and> \<not> truthy (batch (getStyle style)))
                       strokePath ctx
           in Inr (restore ctx) :: error + context2d"
  obtain c where c: "and_then (apply_fill_style numstr (getStyle style) (save ctx))
          (\<lambda>ctx. and_then (apply_stroke_style numstr (getStyle style) ctx) ?k) = ?k c"
    and s: "styled (save ctx) c"
    using fill_and_stroke_style_ok [of numstr style "save ctx" ?k] by blast
  have "rectangle numstr ctx position rect_size style = ?k c"
    unfolding rectangle_def Let_def using c unfolding Let_def .
  then have "rectangle numstr ctx position rect_size style =
         Inr (restore (draws (begin_calls (getStyle style)
                @ rectangle_calls (getStyle style) position rect_size
                @ fill_calls (getStyle style) @ stroke_calls (getStyle style)) c))"
    by (simp add: Let_def path_ops_draws part_defs rectangle_calls_def)
  with s show ?thesis by blast
qed

lemma polygon_anatomy:
  assumes "3 \<le> length vertices"
  shows "\<exists>c. styled (save ctx) c \<and>
       polygon numstr ctx vertices style =
         Inr (restore (draws (begin_calls (getStyle style)
                @ polyline_calls vertices @ [ClosePath]
                @ fill_calls (getStyle style) @ stroke_calls (getStyle style)) c))"
proof -
  let ?k = "\<lambda>ctx. let ctx = run_if (\<not> truthy (batch (getStyle style))) beginPath ctx;
                 ctx = line_through vertices ctx;
                 ctx = closePath ctx;
                 ctx = run_if (truthy (fill (getStyle style)) \<and> \<not> truthy (batch (getStyle style)))
                         fillPath ctx;
                 ctx = run_if (truthy (stroke (getStyle style)) \<and> \<not> truthy (batch (getStyle style)))
                         strokePath ctx
             in Inr (restore ctx) :: error + context2d"
  obtain c where c: "and_then (apply_fill_style numstr (getStyle style) (save ctx))
          (\<lambda>ctx. and_then (apply_stroke_style numstr (getStyle style) ctx) ?k) = ?k c"
    and s: "styled (save ctx) c"
    using fill_and_stroke_style_ok [of numstr style "save ctx" ?k] by blast
  have ne: "vertices \<noteq> []" using assms by auto
  have "polygon numstr ctx vertices style = ?k c"
    unfolding polygon_def Let_def using c assms unfolding Let_def by simp
  then have "polygon numstr ctx vertices style =
         Inr (restore (draws (begin_calls (getStyle style)
                @ polyline_calls vertices @ [ClosePath]
                @ fill_calls (getStyle style) @ stroke_calls (getStyle style)) c))"
    by (simp add: Let_def path_ops_draws part_defs line_through_draws [OF ne])
  with s show ?thesis by blast
qed

lemma path_with_anatomy:
  assumes "2 \<le> length vertices"
  shows "\<exists>c. styled (save ctx) c \<and>
       path_with numstr ts ctx vertices style =
         Inr (restore (draws (begin_calls (getStyle style)
                @ path_calls ts vertices (getStyle style)
                @ stroke_calls (getStyle style)) c))"
proof -
  obtain c where c: "apply_stroke_style numstr (getStyle style) (save ctx) = Inr c"
    and s: "styled (save ctx) c"
    using apply_stroke_style_ok [OF lineDash_getStyle] by blast
  have ne: "vertices \<noteq> []" using assms by auto
  have "path_with numstr ts ctx vertices style =
         Inr (restore (draws (begin_calls (getStyle style)
                @ path_calls ts vertices (getStyle style)
                @ stroke_calls (getStyle style)) c))"
    unfolding path_with_def Let_def c using assms
    by (simp add: path_ops_draws part_defs path_calls_def line_through_draws [OF ne]
        bezier_segments_from_0 catmull_rom_segments_draws
        split: path_type.splits option.splits)
  with s show ?thesis by blast
qed

lemma restore_after_styled:
  assumes "styled (save ctx) c"
  shows "restored ctx (Inr (restore (draws cs c)))"
proof -
  have "saved (draws cs c) = state ctx # saved ctx"
    using assms by (simp add: styled_def)
  then show ?thesis by (simp add: restored_def)
qed

lemma arrowhead_restores:
  assumes "case arrow_type a of Some (Custom f) \<Rightarrow> (\<forall>c n. saved (f c n) = saved c) | _ \<Rightarrow> True"
  shows "\<exists>c'. arrowhead numstr s a start end_point ctx = Inr c'
              \<and> state c' = state ctx \<and> saved c' = saved ctx"
proof -
  let ?c0 = "rotate (vec2_rad (vec2_sub end_point start))
               (translate (vx end_point) (vy end_point) (save ctx))"
  have c0: "saved ?c0 = state ctx # saved ctx" by simp
  show ?thesis
  proof (cases "case arrow_type a of None \<Rightarrow> Caret | Some ty \<Rightarrow> ty")
    case Caret
    obtain c1 where c1: "(if js_of_color_field (strokeColor s) \<noteq> JNull
                   then and_then
                          (prepareColor numstr (js_of_color_field (strokeColor s)))
                          (\<lambda>c. Inr (set_fillStyle (CssColor c) ?c0))
                   else Inr ?c0) = Inr c1" and s1: "saved c1 = saved ?c0"
      using prepareColor_typed [of "strokeColor s" numstr]
      by (cases "js_of_color_field (strokeColor s) = JNull") auto
    show ?thesis
      unfolding arrowhead_def Let_def Caret using c1 s1
      by (simp add: path_ops_draws)
  next
    case Chevron
    show ?thesis
      unfolding arrowhead_def Let_def Chevron by (simp add: path_ops_draws)
  next
    case (Custom f)
    then have "arrow_type a = Some (Custom f)" by (auto split: option.splits)
    with assms have "\<And>c n. saved (f c n) = saved c" by simp
    then show ?thesis
      unfolding arrowhead_def Let_def Custom by simp
  qed
qed

lemma arrow_restores:
  assumes "arrowhead_keeps_stack style"
  shows "restored ctx (arrow numstr ctx start end_point style)"
proof -
  obtain c where c: "apply_stroke_style numstr (getStyle style) (save ctx) = Inr c"
    and s: "styled (save ctx) c"
    using apply_stroke_style_ok [OF lineDash_getStyle] by blast
  let ?c2 = "draws [BeginPath, MoveTo (vx start) (vy start),
                    LineTo (vx end_point) (vy end_point), Stroke] c"
  have sv: "saved ?c2 = state ctx # saved ctx" using s by (simp add: styled_def)
  have "\<exists>c3. (case arrow_field (getStyle style) of
                   Some (Value a) \<Rightarrow> arrowhead numstr (getStyle style) a start end_point ?c2
                 | _ \<Rightarrow> Inr ?c2) = Inr c3 \<and> saved c3 = saved ?c2"
  proof (cases "arrow_field (getStyle style)")
    case None
    then show ?thesis by simp
  next
    case (Some v)
    show ?thesis
    proof (cases v)
      case Null
      with Some show ?thesis by simp
    next
      case (Value a)
      with Some assms
      have "case arrow_type a of Some (Custom f) \<Rightarrow> (\<forall>c n. saved (f c n) = saved c) | _ \<Rightarrow> True"
        by (simp add: arrowhead_keeps_stack_def)
      from arrowhead_restores [OF this, of numstr "getStyle style" start end_point ?c2]
      show ?thesis using Some Value by auto
    qed
  qed
  then obtain c3 where c3: "(case arrow_field (getStyle style) of
                   Some (Value a) \<Rightarrow> arrowhead numstr (getStyle style) a start end_point ?c2
                 | _ \<Rightarrow> Inr ?c2) = Inr c3" and s3: "saved c3 = saved ?c2"
    by blast
  have e: "strokePath (lineTo (vx end_point) (vy end_point)
              (moveTo (vx start) (vy start) (beginPath c))) = ?c2"
    by (simp add: path_ops_draws)
  have "arrow numstr ctx start end_point style = Inr (restore c3)"
    unfolding arrow_def Let_def c and_then_simps e c3 by simp
  then show ?thesis using s3 sv by (simp add: restored_def)
qed

lemma path_is_path_with: "path numstr ctx vertices style = Some (path_with numstr loop_ts ctx vertices style)"
  by (simp add: path_def t_values_0)

lemma getStyle_arrow_field:
  "arrow_field s = Some v \<Longrightarrow> arrow_field (getStyle (Some s)) = Some v"
  by (simp add: getStyle_def assign_def own_def)

lemma example_style_keeps_stack: "arrowhead_keeps_stack (Some example_style)"
proof -
  have "arrow_field (getStyle (Some example_style)) =
      Some (Value \<lparr>arrow_type = Some (Custom dot_arrowhead), arrow_size = None\<rparr>)"
    by (rule getStyle_arrow_field) (simp add: example_style_def)
  then show ?thesis
    by (simp add: arrowhead_keeps_stack_def dot_arrowhead_def path_ops_draws)
qed

lemma getStyle_popping:
  "getStyle (Some popping_style) =
     DEFAULT_STYLE_OPTIONS
       \<lparr>lineDash := Some (Value []),
        arrow_field :=
          Some (Value \<lparr>arrow_type = Some (Custom popping_arrowhead), arrow_size = None\<rparr>)\<rparr>"
  by (simp add: getStyle_def assign_def own_def popping_style_def empty_object_def
      DEFAULT_STYLE_OPTIONS_def)

lemma emits_after_styled:
  assumes "styled (save ctx) c"
  shows "emits ctx (Inr (restore (draws body c))) body"
proof -
  from assms obtain pre where "calls c = calls ctx @ [Save] @ pre" "list_all is_style_call pre"
    by (auto simp: styled_def)
  then show ?thesis by (auto simp: emits_def)
qed

lemma is_draw_polyline: "Fill \<notin> set (polyline_calls vertices)"
  by (auto simp: polyline_calls_def)

lemma no_fill_window: "Fill \<notin> set (window_calls n ts vertices s)"
  by (auto simp: window_calls_def)

lemma no_fill_path_calls: "Fill \<notin> set (path_calls ts vertices s)"
  by (auto simp: path_calls_def polyline_calls_def bezier_calls_def window_calls_def
      catmull_rom_calls_def split: path_type.splits option.splits)

lemma getStyle_filling:
  "getStyle (Some filling_style) =
     DEFAULT_STYLE_OPTIONS
       \<lparr>fill := Some True, fillColor := Some (Value (ColorString ''red'')),
        lineDash := Some (Value [])\<rparr>"
  by (simp add: getStyle_def assign_def own_def filling_style_def empty_object_def
      DEFAULT_STYLE_OPTIONS_def)

text \<open>
  The early return of the bezier branch restores before it returns. (For the orders 1 to
  3 the matrix product is defined, by \<open>bezier_sample_clamped\<close>, and the return is not
  taken.)
\<close>

lemma bezier_abort_restores:
  assumes "bezier_sample order segmentPoints t ctx = Return c" and "saved ctx = s # ss"
  shows "state c = s \<and> saved c = ss"
proof -
  from assms(1) have "c = restore ctx"
    by (auto simp: bezier_sample_def Let_def split: option.splits)
  with assms(2) show ?thesis by simp
qed

section \<open>Arrow sizes, windows and sample runs\<close>

lemma getStyle_None: "getStyle None = getStyle (Some empty_object)"
  by (simp add: getStyle_def empty_object_def)

lemma getStyle_arrow_update:
  "getStyle (Some (s\<lparr>arrow_field := Some v\<rparr>)) = (getStyle (Some s))\<lparr>arrow_field := Some v\<rparr>"
  by (simp add: getStyle_def assign_def own_def split: option.splits)

lemma getStyle_arrow_absent:
  "arrow_field s = None \<Longrightarrow>
   arrow_field (getStyle (Some s)) = Some (Value \<lparr>arrow_type = Some Caret, arrow_size = Some 5\<rparr>)"
  by (simp add: getStyle_def assign_def own_def DEFAULT_STYLE_OPTIONS_def)

lemma apply_stroke_style_arrow:
  "apply_stroke_style numstr (s\<lparr>arrow_field := v\<rparr>) ctx = apply_stroke_style numstr s ctx"
  by (simp add: apply_stroke_style_def)

lemma arrowhead_arrow:
  "arrowhead numstr (s\<lparr>arrow_field := v\<rparr>) a start end_point ctx =
   arrowhead numstr s a start end_point ctx"
  by (simp add: arrowhead_def Let_def split: arrow_type.splits option.splits)

lemma arrowhead_size_absent:
  "arrow_size a = None \<Longrightarrow>
   arrowhead numstr s (a\<lparr>arrow_size := Some 10\<rparr>) start end_point ctx =
   arrowhead numstr s a start end_point ctx"
  by (simp add: arrowhead_def Let_def split: arrow_type.splits option.splits)

lemma getStyle_chevron:
  "getStyle (Some (chevron_style\<lparr>arrow_field := v\<rparr>)) =
     DEFAULT_STYLE_OPTIONS
       \<lparr>lineDash := Some (Value []),
        arrow_field := (case v of None \<Rightarrow> arrow_field DEFAULT_STYLE_OPTIONS | Some w \<Rightarrow> Some w)\<rparr>"
  by (simp add: getStyle_def assign_def own_def chevron_style_def empty_object_def
      DEFAULT_STYLE_OPTIONS_def split: option.splits)

lemmas run_defs =
  DEFAULT_STYLE_OPTIONS_def empty_object_def apply_stroke_style_def Let_def
  example_context_def truthy_def save_def restore_def translate_def rotate_def
  set_lineWidth_def setLineDash_def set_strokeStyle_def set_fillStyle_def received_def
  path_ops_draws draws_def run_if_def vec2_rad_def vec2_sub_def

lemma getStyle_pathType_update:
  "getStyle (Some (s\<lparr>pathType := Some k\<rparr>)) = (getStyle (Some s))\<lparr>pathType := Some k\<rparr>"
  by (simp add: getStyle_def assign_def own_def split: option.splits)

lemma apply_stroke_style_pathType:
  "apply_stroke_style numstr (s\<lparr>pathType := v\<rparr>) ctx = apply_stroke_style numstr s ctx"
  by (simp add: apply_stroke_style_def)

lemma path_with_short_catmull_rom:
  assumes "length vertices < 4"
  shows "path_with numstr ts ctx vertices (Some (s\<lparr>pathType := Some CatmullRom\<rparr>)) =
         path_with numstr ts ctx vertices (Some (s\<lparr>pathType := Some Linear\<rparr>))"
  using assms
  by (simp add: path_with_def getStyle_pathType_update apply_stroke_style_pathType Let_def)

lemma window_count:
  assumes "0 < n"
  shows "k < (len - 1) div n \<longleftrightarrow> k * n + n + 1 \<le> (len :: nat)"
proof -
  have "k < (len - 1) div n \<longleftrightarrow> Suc k \<le> (len - 1) div n" by auto
  also have "\<dots> \<longleftrightarrow> Suc k * n \<le> len - 1"
    using assms by (simp add: less_eq_div_iff_mult_less_eq)
  also have "\<dots> \<longleftrightarrow> k * n + n + 1 \<le> len"
    using assms by (cases len) auto
  finally show ?thesis .
qed

lemma window_starts_length: "length (window_starts n len) = (len - 1) div n"
  by (simp add: window_starts_def)

lemma window_starts_nth: "k < length (window_starts n len) \<Longrightarrow> window_starts n len ! k = k * n"
  by (simp add: window_starts_def)

lemma window_starts_fit:
  assumes "0 < n" and "s \<in> set (window_starts n len)"
  shows "s + n + 1 \<le> len"
proof -
  from assms(2) obtain k where "k < (len - 1) div n" "s = k * n"
    by (auto simp: window_starts_def)
  with window_count [OF assms(1), of k len] show ?thesis by simp
qed

lemma window_starts_append:
  assumes "0 < n" and "1 \<le> len" and "(len - 1) mod n = 0" and "e < n"
  shows "window_starts n (len + e) = window_starts n len"
proof -
  from assms(3) have "n dvd len - 1" by (simp add: mod_eq_0_iff_dvd)
  then obtain q where q: "len - 1 = q * n"
    by (auto simp: dvd_def mult.commute)
  have "len + e - 1 = q * n + e" using assms(2) q by simp
  then have "(len + e - 1) div n = q" using assms by simp
  moreover have "(len - 1) div n = q" using q assms by simp
  ultimately show ?thesis by (simp add: window_starts_def)
qed

lemma window_calls_append:
  assumes "s + n + 1 \<le> length vertices"
  shows "window_calls n ts (vertices @ extra) s = window_calls n ts vertices s"
proof -
  have 1: "take (n + 1) (drop s (vertices @ extra)) = take (n + 1) (drop s vertices)"
    using assms by simp
  have 2: "(vertices @ extra) ! 0 = vertices ! 0"
    using assms by (cases vertices) simp_all
  show ?thesis unfolding window_calls_def 1 2 ..
qed

lemma bezier_calls_append:
  assumes "1 \<le> length vertices" and "(length vertices - 1) mod nat (clamp b 1 3) = 0"
    and "length extra < nat (clamp b 1 3)"
  shows "bezier_calls b ts (vertices @ extra) = bezier_calls b ts vertices"
proof -
  let ?n = "nat (clamp b 1 3)"
  have n: "0 < ?n" using clamp_order [of b] by auto
  have "window_starts ?n (length (vertices @ extra)) = window_starts ?n (length vertices)"
    using window_starts_append [OF n assms(1) assms(2) assms(3)] by simp
  moreover have "map (window_calls ?n ts (vertices @ extra)) (window_starts ?n (length vertices))
      = map (window_calls ?n ts vertices) (window_starts ?n (length vertices))"
  proof (rule map_cong [OF refl])
    fix s assume "s \<in> set (window_starts ?n (length vertices))"
    from window_starts_fit [OF n this]
    show "window_calls ?n ts (vertices @ extra) s = window_calls ?n ts vertices s"
      by (rule window_calls_append)
  qed
  ultimately show ?thesis by (simp only: bezier_calls_def)
qed

lemma path_with_bezier:
  assumes "2 \<le> length vertices" and "pathType (getStyle style) = Some Bezier"
  shows "path_with numstr ts ctx vertices style =
     and_then (apply_stroke_style numstr (getStyle style) (save ctx)) (\<lambda>c.
       Inr (restore (draws (begin_calls (getStyle style)
              @ bezier_calls (case bezierOrder (getStyle style) of None \<Rightarrow> 3 | Some b \<Rightarrow> b)
                  ts vertices
              @ stroke_calls (getStyle style)) c)))"
  using assms
  by (simp add: path_with_def Let_def bezier_segments_from_0 path_ops_draws part_defs)

lemma getStyle_empty_update:
  "getStyle (Some (empty_object\<lparr>pathType := p, bezierOrder := b\<rparr>)) =
     DEFAULT_STYLE_OPTIONS\<lparr>lineDash := Some (Value []), pathType := p, bezierOrder := b\<rparr>"
  by (simp add: getStyle_def assign_def own_def empty_object_def DEFAULT_STYLE_OPTIONS_def
      split: option.splits)

lemma getStyle_bezier_style:
  "getStyle (Some bezier_style) =
     DEFAULT_STYLE_OPTIONS\<lparr>lineDash := Some (Value []), pathType := Some Bezier,
                            bezierOrder := Some 4\<rparr>"
  unfolding bezier_style_def by (rule getStyle_empty_update)

lemma getStyle_cubic_style:
  "getStyle (Some cubic_style) =
     DEFAULT_STYLE_OPTIONS\<lparr>lineDash := Some (Value []), pathType := Some Bezier,
                            bezierOrder := Some 3\<rparr>"
  unfolding cubic_style_def by (rule getStyle_empty_update)

lemma getStyle_catmull_rom_style:
  "getStyle (Some catmull_rom_style) =
     DEFAULT_STYLE_OPTIONS\<lparr>lineDash := Some (Value []), pathType := Some CatmullRom\<rparr>"
  by (simp add: catmull_rom_style_def getStyle_def assign_def own_def empty_object_def
      DEFAULT_STYLE_OPTIONS_def)

lemma one_not_sampled: "1 \<notin> set loop_ts"
  by (simp add: loop_ts_def)

lemma hd_loop_ts: "hd loop_ts = 0"
  by (simp add: loop_ts_def)

lemma last_loop_ts: "last loop_ts = 2229281815548397 / 2251799813685248"
  by (simp add: loop_ts_def)

lemma after_last_sample: "fadd (last loop_ts) step = 4503599627370499 / 4503599627370496"
  by (simp add: last_loop_ts step_value fl_eval)

lemma default_stroke_styles:
  "apply_stroke_style numstr (DEFAULT_STYLE_OPTIONS\<lparr>lineDash := Some (Value []), pathType := p,
       bezierOrder := b\<rparr>) ctx = Inr (setLineDash [] (set_lineWidth 1 ctx))"
  by (simp add: apply_stroke_style_def DEFAULT_STYLE_OPTIONS_def empty_object_def Let_def)

lemma length_example_vertices: "length example_vertices = 4"
  by (simp add: example_vertices_def)

lemma window_starts_3_4: "window_starts 3 4 = [0]"
  by (simp add: window_starts_def)

lemma cubic_curve_example:
  "bezier_curve 3 (take (3 + 1) (drop 0 example_vertices)) t =
     \<lparr>vx = 3 * t, vy = 6 * t * (1 - t)\<rparr>"
  by (simp add: bezier_curve_def weighted_sum_def example_vertices_def power2_eq_square
      power3_eq_cube algebra_simps)

lemma path_with_catmull_rom:
  assumes "4 \<le> length vertices" and "pathType (getStyle style) = Some CatmullRom"
  shows "path_with numstr ts ctx vertices style =
     and_then (apply_stroke_style numstr (getStyle style) (save ctx)) (\<lambda>c.
       Inr (restore (draws (begin_calls (getStyle style)
              @ MoveTo (vx (vertices ! 1)) (vy (vertices ! 1))
                # catmull_rom_calls ts
                    (case catmullRomTension (getStyle style) of None \<Rightarrow> 1 / 2 | Some v \<Rightarrow> v)
                    vertices
              @ stroke_calls (getStyle style)) c)))"
  using assms
  by (simp add: path_with_def Let_def catmull_rom_segments_draws path_ops_draws part_defs)

lemma length_spline_vertices: "length spline_vertices = 4"
  by (simp add: spline_vertices_def)

lemma spline_example:
  "catmull_rom_calls ts (1 / 2) spline_vertices =
     map (\<lambda>t. LineTo (1 + t) (3 * t ^ 3 - 9 / 2 * t ^ 2 + t / 2 + 2)) ts"
proof -
  have "[1..<length spline_vertices - 2] = [1]"
    by (simp add: length_spline_vertices upt_rec)
  then show ?thesis
    by (simp add: catmull_rom_calls_def spline_vertices_def dot_def
        CATMULL_ROM_BASIS_VECTOR_def algebra_simps)
qed

section \<open>Claims about style resolution\<close>

text \<open>
  C7. When the partial style does not supply \<open>lineDash\<close>, the resolved dash pattern is the
  empty array if \<open>lineStyle\<close> is not supplied either, and otherwise comes from the table
  solid \<open>[]\<close>, dashed \<open>[5, 5]\<close>, dotted \<open>[1, 3]\<close>; a supplied \<open>lineDash\<close>, \<^verbatim>\<open>null\<close> included,
  is kept as it is. With no style object at all the pattern is the empty array.
\<close>

theorem getStyle_lineDash:
  "lineDash (getStyle None) = Some (Value []) \<and>
   (lineDash s = None \<and> lineStyle s = None \<longrightarrow>
      lineDash (getStyle (Some s)) = Some (Value [])) \<and>
   (lineDash s = None \<and> lineStyle s = Some Solid \<longrightarrow>
      lineDash (getStyle (Some s)) = Some (Value [])) \<and>
   (lineDash s = None \<and> lineStyle s = Some Dashed \<longrightarrow>
      lineDash (getStyle (Some s)) = Some (Value [5, 5])) \<and>
   (lineDash s = None \<and> lineStyle s = Some Dotted \<longrightarrow>
      lineDash (getStyle (Some s)) = Some (Value [1, 3])) \<and>
   (lineDash s = Some d \<longrightarrow> lineDash (getStyle (Some s)) = Some d)"
  by (simp add: getStyle_def assign_def own_def)

text \<open>The theorem at six styles, one for each of its hypotheses.\<close>

theorem getStyle_lineDash_witness:
  "lineDash (getStyle (Some empty_object)) = Some (Value []) \<and>
   lineDash (getStyle (Some (empty_object\<lparr>lineStyle := Some Solid\<rparr>))) = Some (Value []) \<and>
   lineDash (getStyle (Some (empty_object\<lparr>lineStyle := Some Dashed\<rparr>))) = Some (Value [5, 5]) \<and>
   lineDash (getStyle (Some (empty_object\<lparr>lineStyle := Some Dotted\<rparr>))) = Some (Value [1, 3]) \<and>
   lineDash (getStyle (Some (empty_object\<lparr>lineStyle := Some Dashed, lineDash := Some Null\<rparr>)))
     = Some Null \<and>
   lineDash (getStyle (Some (empty_object\<lparr>lineStyle := Some Dotted, lineDash := Some (Value [2, 4])\<rparr>)))
     = Some (Value [2, 4])"
  using getStyle_lineDash [of empty_object]
    getStyle_lineDash [of "empty_object\<lparr>lineStyle := Some Solid\<rparr>"]
    getStyle_lineDash [of "empty_object\<lparr>lineStyle := Some Dashed\<rparr>"]
    getStyle_lineDash [of "empty_object\<lparr>lineStyle := Some Dotted\<rparr>"]
    getStyle_lineDash [of "empty_object\<lparr>lineStyle := Some Dashed, lineDash := Some Null\<rparr>" Null]
    getStyle_lineDash [of "empty_object\<lparr>lineStyle := Some Dotted, lineDash := Some (Value [2, 4])\<rparr>"
      "Value [2, 4]"]
  by (simp add: empty_object_def)

text \<open>
  C8. Resolving a resolved style changes nothing: \<open>getStyle (getStyle s)\<close> is \<open>getStyle s\<close>,
  field for field, the derived \<open>lineDash\<close> and the extension fields included.
\<close>

theorem getStyle_idempotent: "getStyle (Some (getStyle style)) = getStyle style"
proof -
  obtain d where "lineDash (getStyle style) = Some d"
    using lineDash_getStyle [of style] by auto
  then have "getStyle (Some (getStyle style)) = assign DEFAULT_STYLE_OPTIONS (getStyle style)"
    by (rule getStyle_supplied_dash)
  moreover obtain x where "getStyle style = assign DEFAULT_STYLE_OPTIONS x"
    using getStyle_assign by blast
  ultimately show ?thesis by (simp add: assign_idem)
qed

section \<open>Claim about colour preparation\<close>




section \<open>Claims about the emitters\<close>







section \<open>Claims about arrows and curves\<close>

text \<open>
  C10. A style that supplies an arrow object without a size draws the arrowhead with size
  10: the call is the call with size 10 written out. The size 5 of the default style
  applies only when the style has no arrow field (or there is no style): the call is
  then the call with a caret of size 5 written out.
\<close>

theorem arrow_size_default:
  "(arrow_field s = Some (Value a) \<and> arrow_size a = None \<longrightarrow>
      arrow numstr ctx start end_point (Some s) =
      arrow numstr ctx start end_point
        (Some (s\<lparr>arrow_field := Some (Value (a\<lparr>arrow_size := Some 10\<rparr>))\<rparr>))) \<and>
   (arrow_field s = None \<longrightarrow>
      arrow numstr ctx start end_point (Some s) =
      arrow numstr ctx start end_point
        (Some (s\<lparr>arrow_field :=
                  Some (Value \<lparr>arrow_type = Some Caret, arrow_size = Some 5\<rparr>)\<rparr>))) \<and>
   arrow numstr ctx start end_point None =
   arrow numstr ctx start end_point
     (Some (empty_object\<lparr>arrow_field :=
              Some (Value \<lparr>arrow_type = Some Caret, arrow_size = Some 5\<rparr>)\<rparr>))"
proof (intro conjI impI)
  assume h: "arrow_field s = Some (Value a) \<and> arrow_size a = None"
  then have "arrow_field (getStyle (Some s)) = Some (Value a)"
    by (simp add: getStyle_arrow_field)
  with h show "arrow numstr ctx start end_point (Some s) =
      arrow numstr ctx start end_point
        (Some (s\<lparr>arrow_field := Some (Value (a\<lparr>arrow_size := Some 10\<rparr>))\<rparr>))"
    by (simp add: arrow_def getStyle_arrow_update apply_stroke_style_arrow arrowhead_arrow
        arrowhead_size_absent Let_def)
next
  assume h: "arrow_field s = None"
  from getStyle_arrow_absent [OF h]
  show "arrow numstr ctx start end_point (Some s) =
      arrow numstr ctx start end_point
        (Some (s\<lparr>arrow_field :=
                  Some (Value \<lparr>arrow_type = Some Caret, arrow_size = Some 5\<rparr>)\<rparr>))"
    by (simp add: arrow_def getStyle_arrow_update apply_stroke_style_arrow arrowhead_arrow
        Let_def)
next
  have "arrow_field empty_object = None" by (simp add: empty_object_def)
  from getStyle_arrow_absent [OF this]
  show "arrow numstr ctx start end_point None =
      arrow numstr ctx start end_point
        (Some (empty_object\<lparr>arrow_field :=
                  Some (Value \<lparr>arrow_type = Some Caret, arrow_size = Some 5\<rparr>)\<rparr>))"
    by (simp add: arrow_def getStyle_None getStyle_arrow_update apply_stroke_style_arrow
        arrowhead_arrow Let_def)
qed

text \<open>
  The theorem at a chevron without a size, whose arms reach 5 to each side (half of 10),
  and at the empty style, whose caret is 5 long.
\<close>

theorem arrow_size_default_witness:
  "arrow example_numstr example_context \<lparr>vx = 0, vy = 0\<rparr> \<lparr>vx = 10, vy = 0\<rparr> (Some chevron_style) =
   arrow example_numstr example_context \<lparr>vx = 0, vy = 0\<rparr> \<lparr>vx = 10, vy = 0\<rparr>
     (Some (chevron_style
        \<lparr>arrow_field := Some (Value \<lparr>arrow_type = Some Chevron, arrow_size = Some 10\<rparr>)\<rparr>)) \<and>
   map_sum id calls
     (arrow example_numstr example_context \<lparr>vx = 0, vy = 0\<rparr> \<lparr>vx = 10, vy = 0\<rparr>
        (Some chevron_style)) =
     Inr [Save, SetLineWidth 1, SetLineDash [], BeginPath, MoveTo 0 0, LineTo 10 0, Stroke,
          Save, Translate 10 0, Rotate (Atan2 0 10),
          BeginPath, MoveTo (- 5) (- 5), LineTo 0 0, LineTo (- 5) 5, Stroke,
          Restore, Restore] \<and>
   arrow example_numstr example_context \<lparr>vx = 0, vy = 0\<rparr> \<lparr>vx = 10, vy = 0\<rparr> (Some empty_object) =
   arrow example_numstr example_context \<lparr>vx = 0, vy = 0\<rparr> \<lparr>vx = 10, vy = 0\<rparr>
     (Some (empty_object
        \<lparr>arrow_field := Some (Value \<lparr>arrow_type = Some Caret, arrow_size = Some 5\<rparr>)\<rparr>)) \<and>
   map_sum id calls
     (arrow example_numstr example_context \<lparr>vx = 0, vy = 0\<rparr> \<lparr>vx = 10, vy = 0\<rparr>
        (Some empty_object)) =
     Inr [Save, SetLineWidth 1, SetLineDash [], BeginPath, MoveTo 0 0, LineTo 10 0, Stroke,
          Save, Translate 10 0, Rotate (Atan2 0 10),
          BeginPath, MoveTo 0 (- (5 / 2)), LineTo 5 0, LineTo 0 (5 / 2), ClosePath, Fill,
          Restore, Restore]"
proof -
  have 1: "map_sum id calls
     (arrow example_numstr example_context \<lparr>vx = 0, vy = 0\<rparr> \<lparr>vx = 10, vy = 0\<rparr>
        (Some chevron_style)) =
     Inr [Save, SetLineWidth 1, SetLineDash [], BeginPath, MoveTo 0 0, LineTo 10 0, Stroke,
          Save, Translate 10 0, Rotate (Atan2 0 10),
          BeginPath, MoveTo (- 5) (- 5), LineTo 0 0, LineTo (- 5) 5, Stroke,
          Restore, Restore]"
    using getStyle_chevron [of "arrow_field chevron_style"]
    by (simp add: arrow_def arrowhead_def chevron_style_def run_defs)
  have e: "getStyle (Some empty_object) = DEFAULT_STYLE_OPTIONS\<lparr>lineDash := Some (Value [])\<rparr>"
    by (simp add: getStyle_def assign_def own_def empty_object_def DEFAULT_STYLE_OPTIONS_def)
  have 2: "map_sum id calls
     (arrow example_numstr example_context \<lparr>vx = 0, vy = 0\<rparr> \<lparr>vx = 10, vy = 0\<rparr>
        (Some empty_object)) =
     Inr [Save, SetLineWidth 1, SetLineDash [], BeginPath, MoveTo 0 0, LineTo 10 0, Stroke,
          Save, Translate 10 0, Rotate (Atan2 0 10),
          BeginPath, MoveTo 0 (- (5 / 2)), LineTo 5 0, LineTo 0 (5 / 2), ClosePath, Fill,
          Restore, Restore]"
    unfolding arrow_def e by (simp add: arrowhead_def run_defs)
  have 3: "arrow example_numstr example_context \<lparr>vx = 0, vy = 0\<rparr> \<lparr>vx = 10, vy = 0\<rparr>
      (Some chevron_style) =
    arrow example_numstr example_context \<lparr>vx = 0, vy = 0\<rparr> \<lparr>vx = 10, vy = 0\<rparr>
     (Some (chevron_style
        \<lparr>arrow_field := Some (Value \<lparr>arrow_type = Some Chevron, arrow_size = Some 10\<rparr>)\<rparr>))"
    using arrow_size_default [of chevron_style "\<lparr>arrow_type = Some Chevron, arrow_size = None\<rparr>"
      example_numstr example_context "\<lparr>vx = 0, vy = 0\<rparr>" "\<lparr>vx = 10, vy = 0\<rparr>"]
    by (simp add: chevron_style_def)
  have 4: "arrow example_numstr example_context \<lparr>vx = 0, vy = 0\<rparr> \<lparr>vx = 10, vy = 0\<rparr>
      (Some empty_object) =
    arrow example_numstr example_context \<lparr>vx = 0, vy = 0\<rparr> \<lparr>vx = 10, vy = 0\<rparr>
     (Some (empty_object
        \<lparr>arrow_field := Some (Value \<lparr>arrow_type = Some Caret, arrow_size = Some 5\<rparr>)\<rparr>))"
    using arrow_size_default [of empty_object "\<lparr>arrow_type = None, arrow_size = None\<rparr>"
      example_numstr example_context "\<lparr>vx = 0, vy = 0\<rparr>" "\<lparr>vx = 10, vy = 0\<rparr>"]
    by (simp add: empty_object_def)
  from 1 2 3 4 show ?thesis by blast
qed

text \<open>
  C6. For two or three vertices and every style, the path emitter with path type
  catmull-rom returns the same result, and so issues the same calls, as with path type
  linear: a move to the first vertex and a line to each of the others.
\<close>

theorem catmull_rom_falls_back:
  assumes "length vertices = 2 \<or> length vertices = 3"
  shows "path numstr ctx vertices (Some (s\<lparr>pathType := Some CatmullRom\<rparr>)) =
         path numstr ctx vertices (Some (s\<lparr>pathType := Some Linear\<rparr>)) \<and>
         (\<exists>r. path numstr ctx vertices (Some (s\<lparr>pathType := Some CatmullRom\<rparr>)) = Some r \<and>
              emits ctx r
                (begin_calls (getStyle (Some s))
                 @ MoveTo (vx (vertices ! 0)) (vy (vertices ! 0))
                   # map (\<lambda>v. LineTo (vx v) (vy v)) (tl vertices)
                 @ stroke_calls (getStyle (Some s))))"
proof
  have short: "length vertices < 4" using assms by auto
  show "path numstr ctx vertices (Some (s\<lparr>pathType := Some CatmullRom\<rparr>)) =
         path numstr ctx vertices (Some (s\<lparr>pathType := Some Linear\<rparr>))"
    by (simp add: path_def path_with_short_catmull_rom [OF short])
  have two: "2 \<le> length vertices" using assms by auto
  let ?S = "getStyle (Some (s\<lparr>pathType := Some CatmullRom\<rparr>))"
  have S: "begin_calls ?S = begin_calls (getStyle (Some s))"
    "stroke_calls ?S = stroke_calls (getStyle (Some s))"
    "path_calls loop_ts vertices ?S = polyline_calls vertices"
    using short by (simp_all add: getStyle_pathType_update part_defs path_calls_def)
  from path_with_anatomy [OF two, of ctx numstr loop_ts "Some (s\<lparr>pathType := Some CatmullRom\<rparr>)"]
  obtain c where c: "styled (save ctx) c"
    "path_with numstr loop_ts ctx vertices (Some (s\<lparr>pathType := Some CatmullRom\<rparr>)) =
       Inr (restore (draws (begin_calls (getStyle (Some s)) @ polyline_calls vertices
              @ stroke_calls (getStyle (Some s))) c))"
    unfolding S by blast
  from emits_after_styled [OF c(1)] c(2)
  show "\<exists>r. path numstr ctx vertices (Some (s\<lparr>pathType := Some CatmullRom\<rparr>)) = Some r \<and>
              emits ctx r
                (begin_calls (getStyle (Some s))
                 @ MoveTo (vx (vertices ! 0)) (vy (vertices ! 0))
                   # map (\<lambda>v. LineTo (vx v) (vy v)) (tl vertices)
                 @ stroke_calls (getStyle (Some s)))"
    by (simp add: path_is_path_with polyline_calls_def)
qed

text \<open>The theorem at the three vertices \<open>(0,0)\<close>, \<open>(10,0)\<close>, \<open>(10,10)\<close>.\<close>

theorem catmull_rom_falls_back_witness:
  "path example_numstr example_context [\<lparr>vx = 0, vy = 0\<rparr>, \<lparr>vx = 10, vy = 0\<rparr>, \<lparr>vx = 10, vy = 10\<rparr>]
     (Some (empty_object\<lparr>pathType := Some CatmullRom\<rparr>)) =
   path example_numstr example_context [\<lparr>vx = 0, vy = 0\<rparr>, \<lparr>vx = 10, vy = 0\<rparr>, \<lparr>vx = 10, vy = 10\<rparr>]
     (Some (empty_object\<lparr>pathType := Some Linear\<rparr>)) \<and>
   (\<exists>r. path example_numstr example_context
          [\<lparr>vx = 0, vy = 0\<rparr>, \<lparr>vx = 10, vy = 0\<rparr>, \<lparr>vx = 10, vy = 10\<rparr>]
          (Some (empty_object\<lparr>pathType := Some CatmullRom\<rparr>)) = Some r \<and>
        emits example_context r
          [BeginPath, MoveTo 0 0, LineTo 10 0, LineTo 10 10, Stroke])"
proof -
  have e: "getStyle (Some empty_object) = DEFAULT_STYLE_OPTIONS\<lparr>lineDash := Some (Value [])\<rparr>"
    by (simp add: getStyle_def assign_def own_def empty_object_def DEFAULT_STYLE_OPTIONS_def)
  have l: "length [\<lparr>vx = 0, vy = 0\<rparr>, \<lparr>vx = 10, vy = 0\<rparr>, \<lparr>vx = 10, vy = 10 :: rat\<rparr>] = 2 \<or>
           length [\<lparr>vx = 0, vy = 0\<rparr>, \<lparr>vx = 10, vy = 0\<rparr>, \<lparr>vx = 10, vy = 10 :: rat\<rparr>] = 3"
    by simp
  have parts: "begin_calls (getStyle (Some empty_object)) = [BeginPath]"
    "stroke_calls (getStyle (Some empty_object)) = [Stroke]"
    unfolding e
    by (simp_all add: part_defs truthy_def DEFAULT_STYLE_OPTIONS_def empty_object_def)
  have body: "[BeginPath]
      @ MoveTo (vx ([\<lparr>vx = 0, vy = 0\<rparr>, \<lparr>vx = 10, vy = 0\<rparr>, \<lparr>vx = 10, vy = 10\<rparr>] ! 0))
               (vy ([\<lparr>vx = 0, vy = 0\<rparr>, \<lparr>vx = 10, vy = 0\<rparr>, \<lparr>vx = 10, vy = 10\<rparr>] ! 0))
        # map (\<lambda>v. LineTo (vx v) (vy v))
            (tl [\<lparr>vx = 0, vy = 0\<rparr>, \<lparr>vx = 10, vy = 0\<rparr>, \<lparr>vx = 10, vy = 10\<rparr>])
      @ [Stroke] = [BeginPath, MoveTo 0 0, LineTo 10 0, LineTo 10 10, Stroke]"
    by simp
  from catmull_rom_falls_back [OF l, of example_numstr example_context empty_object]
  show ?thesis
    unfolding parts body .
qed



text \<open>
  C3 says that a cubic segment is sampled at 101 parameters from 0 to 1 and ends at
  \<open>vertices[3]\<close>. The loop \<^verbatim>\<open>for (let t = 0; t <= 1; t += 0.01)\<close> runs 100 times: the sums of
  \<^verbatim>\<open>0.01\<close> are rounded, the hundredth value of \<open>t\<close> is \<open>0.9900000000000007\<close> and the next one
  is \<open>1.0000000000000007\<close>, above 1. For the vertices \<open>(0,0)\<close>, \<open>(1,2)\<close>, \<open>(2,2)\<close>, \<open>(3,0)\<close> the curve is
  \<open>(3t, 6t(1 - t))\<close>; the 100 points start at \<open>vertices[0]\<close> and none of them is
  \<open>vertices[3]\<close>.
\<close>

theorem cubic_bezier_samples:
  "map_option (map_sum id calls)
     (path example_numstr example_context example_vertices (Some cubic_style)) =
     Some (Inr ([Save, SetLineWidth 1, SetLineDash [], BeginPath, MoveTo 0 0]
                @ map (\<lambda>t. LineTo (3 * t) (6 * t * (1 - t))) loop_ts
                @ [Stroke, Restore])) \<and>
   t_values 0 = Some loop_ts \<and>
   length loop_ts = 100 \<and>
   hd loop_ts = 0 \<and>
   last loop_ts = 2229281815548397 / 2251799813685248 \<and>
   fadd (last loop_ts) step = 4503599627370499 / 4503599627370496 \<and>
   LineTo 3 0 \<notin> set (map (\<lambda>t. LineTo (3 * t) (6 * t * (1 - t))) loop_ts)"
proof -
  have len: "2 \<le> length example_vertices" by (simp add: example_vertices_def)
  have c3: "nat (clamp 3 1 3) = 3" by (simp add: clamp_def)
  have v0: "example_vertices ! 0 = \<lparr>vx = 0, vy = 0\<rparr>" by (simp add: example_vertices_def)
  have wc: "window_calls 3 loop_ts example_vertices 0 =
      MoveTo 0 0 # map (\<lambda>t. LineTo (3 * t) (6 * t * (1 - t))) loop_ts"
    unfolding window_calls_def of_nat_numeral cubic_curve_example v0 by simp
  have bc: "bezier_calls 3 loop_ts example_vertices =
      MoveTo 0 0 # map (\<lambda>t. LineTo (3 * t) (6 * t * (1 - t))) loop_ts"
    unfolding bezier_calls_def c3 length_example_vertices window_starts_3_4 by (simp add: wc)
  have "path_with example_numstr loop_ts example_context example_vertices (Some cubic_style) =
      Inr (restore (draws ([BeginPath] @ bezier_calls 3 loop_ts example_vertices @ [Stroke])
             (setLineDash [] (set_lineWidth 1 (save example_context)))))"
    unfolding path_with_bezier [OF len, of "Some cubic_style", unfolded getStyle_cubic_style, simplified]
      getStyle_cubic_style default_stroke_styles
    by (simp add: part_defs truthy_def DEFAULT_STYLE_OPTIONS_def empty_object_def)
  then have 1: "map_option (map_sum id calls)
     (path example_numstr example_context example_vertices (Some cubic_style)) =
     Some (Inr ([Save, SetLineWidth 1, SetLineDash [], BeginPath, MoveTo 0 0]
                @ map (\<lambda>t. LineTo (3 * t) (6 * t * (1 - t))) loop_ts
                @ [Stroke, Restore]))"
    by (simp add: path_is_path_with bc example_context_def)
  have 2: "LineTo 3 0 \<notin> set (map (\<lambda>t. LineTo (3 * t) (6 * t * (1 - t))) loop_ts)"
    using one_not_sampled by auto
  from 1 2 t_values_0 length_loop_ts hd_loop_ts last_loop_ts after_last_sample
  show ?thesis by blast
qed

text \<open>
  C5 says that with four vertices or more the Catmull-Rom curve visits
  \<open>vertices[1]\<close> to \<open>vertices[length - 2]\<close>. The last of these would be reached at \<open>t = 1\<close>
  of the last segment, and the same loop never samples \<open>t = 1\<close>. For the vertices
  \<open>(0,0)\<close>, \<open>(1,2)\<close>, \<open>(2,1)\<close>, \<open>(3,3)\<close> and the default tension the curve is
  \<open>(1 + t, 3t^3 - 9/2 t^2 + t/2 + 2)\<close>: it starts at \<open>vertices[1]\<close> and none of its 100
  points is \<open>vertices[2]\<close>.
\<close>

theorem catmull_rom_samples:
  "map_option (map_sum id calls)
     (path example_numstr example_context spline_vertices (Some catmull_rom_style)) =
     Some (Inr ([Save, SetLineWidth 1, SetLineDash [], BeginPath, MoveTo 1 2]
                @ map (\<lambda>t. LineTo (1 + t) (3 * t ^ 3 - 9 / 2 * t ^ 2 + t / 2 + 2)) loop_ts
                @ [Stroke, Restore])) \<and>
   length loop_ts = 100 \<and>
   hd loop_ts = 0 \<and>
   last loop_ts = 2229281815548397 / 2251799813685248 \<and>
   spline_vertices ! 2 = \<lparr>vx = 2, vy = 1\<rparr> \<and>
   LineTo 2 1 \<notin> set (map (\<lambda>t. LineTo (1 + t) (3 * t ^ 3 - 9 / 2 * t ^ 2 + t / 2 + 2)) loop_ts)"
proof -
  have len: "4 \<le> length spline_vertices" by (simp add: length_spline_vertices)
  have v1: "spline_vertices ! Suc 0 = \<lparr>vx = 1, vy = 2\<rparr>" by (simp add: spline_vertices_def)
  have v2: "spline_vertices ! 2 = \<lparr>vx = 2, vy = 1\<rparr>" by (simp add: spline_vertices_def)
  have "path_with example_numstr loop_ts example_context spline_vertices (Some catmull_rom_style) =
      Inr (restore (draws ([BeginPath] @ MoveTo 1 2 # catmull_rom_calls loop_ts (1 / 2) spline_vertices
             @ [Stroke])
             (setLineDash [] (set_lineWidth 1 (save example_context)))))"
    unfolding path_with_catmull_rom [OF len, of "Some catmull_rom_style",
        unfolded getStyle_catmull_rom_style, simplified]
      getStyle_catmull_rom_style
    by (simp add: part_defs truthy_def DEFAULT_STYLE_OPTIONS_def empty_object_def
        apply_stroke_style_def Let_def v1)
  then have 1: "map_option (map_sum id calls)
     (path example_numstr example_context spline_vertices (Some catmull_rom_style)) =
     Some (Inr ([Save, SetLineWidth 1, SetLineDash [], BeginPath, MoveTo 1 2]
                @ map (\<lambda>t. LineTo (1 + t) (3 * t ^ 3 - 9 / 2 * t ^ 2 + t / 2 + 2)) loop_ts
                @ [Stroke, Restore]))"
    by (simp add: path_is_path_with spline_example example_context_def)
  have 2: "LineTo 2 1 \<notin> set (map (\<lambda>t. LineTo (1 + t) (3 * t ^ 3 - 9 / 2 * t ^ 2 + t / 2 + 2)) loop_ts)"
    using one_not_sampled by auto
  from 1 2 v2 length_loop_ts hd_loop_ts last_loop_ts show ?thesis by blast
qed

end
